theory Spec2Isabelle
  imports Complex_Main "HOL-Library.AList"
begin

section \<open>The Midnight game server: room state\<close>

text \<open>
  The server keeps one \<open>GameState\<close> per room. A JavaScript object used as a dictionary
  (\<open>Record<string, T>\<close>) is an association list in the order \<open>Object.keys\<close> enumerates it:
  for the socket ids used as keys this is insertion order, an assignment to an existing key
  updates in place and an assignment to a new key appends (\<open>AList.update\<close>), and
  \<open>delete\<close> removes the entry (\<open>AList.delete\<close>). \<open>string | null\<close> is \<open>string option\<close>.
\<close>

record Player =
  idP :: string
  nameP :: string

record GameState =
  players :: "(string \<times> Player) list"
  dice :: "int list"
  keptDice :: "bool list"
  rollCount :: int
  currentPlayer :: "string option"
  scores :: "(string \<times> int) list"
  roundScores :: "(string \<times> int) list"
  turnScore :: int
  mustKeepDie :: bool
  isRolling :: bool
  playerOrder :: "string list"
  playersPlayedThisRound :: "string list"
  roundEnded :: bool
  roundWinner :: "string option"

subsection \<open>JavaScript primitives used by the server\<close>

text \<open>\<open>Object.keys(o)\<close>.\<close>

definition Object_keys :: "('k \<times> 'v) list \<Rightarrow> 'k list" where
  "Object_keys obj = map fst obj"

text \<open>\<open>xs.indexOf(x)\<close>: the first position of \<open>x\<close>, or \<open>-1\<close>.\<close>

fun indexOf :: "'a list \<Rightarrow> 'a \<Rightarrow> int" where
  "indexOf [] x = - 1"
| "indexOf (y # ys) x =
     (if y = x then 0
      else (let r = indexOf ys x in if r = - 1 then - 1 else r + 1))"

text \<open>
  Truthiness of a \<open>string | null\<close>: \<open>null\<close> and the empty string are falsy.
  \<open>or_empty c\<close> is \<open>c || ""\<close>.
\<close>

definition truthy :: "string option \<Rightarrow> bool" where
  "truthy c = (case c of None \<Rightarrow> False | Some s \<Rightarrow> s \<noteq> [])"

definition or_empty :: "string option \<Rightarrow> string" where
  "or_empty c = (case c of None \<Rightarrow> [] | Some s \<Rightarrow> s)"

text \<open>
  Array reads and writes. \<open>keptDice[i]\<close> beyond the end is \<open>undefined\<close>, which every use
  in the server treats as falsy. A write \<open>xs[i] = v\<close> beyond the end extends the array;
  the slots in between are holes, which the model fills with a default \<open>d\<close> (holes arise
  only from arrays shorter than six, which no handler produces).
\<close>

definition kept_at :: "bool list \<Rightarrow> nat \<Rightarrow> bool" where
  "kept_at ks i = (i < length ks \<and> ks ! i)"

definition js_set :: "'a \<Rightarrow> 'a list \<Rightarrow> nat \<Rightarrow> 'a \<Rightarrow> 'a list" where
  "js_set d xs i v =
     (if i < length xs then xs[i := v]
      else xs @ replicate (i - length xs) d @ [v])"

text \<open>\<open>s.trim()\<close> on the whitespace characters of the Latin-1 range.\<close>

definition isSpace :: "char \<Rightarrow> bool" where
  "isSpace c = (c \<in> {CHR '' '', CHR 0x09, CHR 0x0A, CHR 0x0B, CHR 0x0C, CHR 0x0D, CHR 0xA0})"

definition trim :: "string \<Rightarrow> string" where
  "trim s = rev (dropWhile isSpace (rev (dropWhile isSpace s)))"

subsection \<open>The room state machine\<close>

definition createInitialGameState :: GameState where
  "createInitialGameState =
     \<lparr> players = [],
       dice = [0, 0, 0, 0, 0, 0],
       keptDice = [False, False, False, False, False, False],
       rollCount = 0,
       currentPlayer = None,
       scores = [],
       roundScores = [],
       turnScore = 0,
       mustKeepDie = False,
       isRolling = False,
       playerOrder = [],
       playersPlayedThisRound = [],
       roundEnded = False,
       roundWinner = None \<rparr>"

text \<open>
  \<open>getNextPlayer\<close>: rotation over \<open>playerOrder\<close> when it is not empty, and the same
  rotation over the keys of \<open>players\<close> otherwise.
\<close>

definition getNextPlayer :: "GameState \<Rightarrow> string option" where
  "getNextPlayer roomState =
     (if length (playerOrder roomState) > 0 then
        (let currentPlayerIndex =
               indexOf (playerOrder roomState) (or_empty (currentPlayer roomState))
         in if currentPlayerIndex = - 1 \<and> length (playerOrder roomState) > 0
            then Some (playerOrder roomState ! 0)
            else (let nextPlayerIndex =
                        (currentPlayerIndex + 1) mod int (length (playerOrder roomState))
                  in Some (playerOrder roomState ! nat nextPlayerIndex)))
      else
        (let playerIds = Object_keys (players roomState)
         in if length playerIds = 0 then None
            else (let currentPlayerIndex = indexOf playerIds (or_empty (currentPlayer roomState))
                  in if currentPlayerIndex = - 1 \<and> length playerIds > 0
                     then Some (playerIds ! 0)
                     else (let nextPlayerIndex =
                                 (currentPlayerIndex + 1) mod int (length playerIds)
                           in Some (playerIds ! nat nextPlayerIndex)))))"

definition resetTurnState :: "GameState \<Rightarrow> GameState" where
  "resetTurnState roomState =
     roomState\<lparr> dice := [0, 0, 0, 0, 0, 0],
                keptDice := [False, False, False, False, False, False],
                rollCount := 0,
                turnScore := 0,
                mustKeepDie := False \<rparr>"

text \<open>\<open>new Set(xs).size\<close> is the number of distinct entries.\<close>

definition checkRoundEnd :: "GameState \<Rightarrow> bool" where
  "checkRoundEnd roomState =
     (length (remdups (playersPlayedThisRound roomState))
        \<ge> length (Object_keys (players roomState)))"

text \<open>
  \<open>determineRoundWinner\<close>: one pass over the entries of \<open>roundScores\<close> carrying
  \<open>(highestScore, winners)\<close>, started at \<open>(-1, [])\<close>.
\<close>

definition winner_step :: "string \<times> int \<Rightarrow> int \<times> string list \<Rightarrow> int \<times> string list" where
  "winner_step e acc =
     (case e of (playerId, score) \<Rightarrow>
        (case acc of (highestScore, winners) \<Rightarrow>
           if score > highestScore then (score, [playerId])
           else if score = highestScore then (highestScore, winners @ [playerId])
           else (highestScore, winners)))"

definition determineRoundWinner :: "GameState \<Rightarrow> string option" where
  "determineRoundWinner roomState =
     (case snd (fold winner_step (roundScores roomState) (- 1, [])) of
        [w] \<Rightarrow> Some w
      | _ \<Rightarrow> None)"

text \<open>
  The scoring block of the \<open>endTurn\<close> handler. \<open>dice.some((die, i) => keptDice[i] && die === v)\<close>
  visits the indices of \<open>dice\<close>; the summing loop visits the indices \<open>0..5\<close>. The loop
  reads \<open>dice[i]\<close> only where \<open>keptDice[i]\<close> is set; with fewer than six dice JavaScript
  would add \<open>undefined\<close> there, which has no counterpart among the integers, so the score
  is meant for states with six dice (all stored states, see \<open>plausible\<close> below).
\<close>

definition hasKept :: "int \<Rightarrow> int list \<Rightarrow> bool list \<Rightarrow> bool" where
  "hasKept v ds ks = list_ex (\<lambda>i. kept_at ks i \<and> ds ! i = v) [0..<length ds]"

definition score_step :: "int list \<Rightarrow> bool list \<Rightarrow> nat \<Rightarrow> int \<Rightarrow> int" where
  "score_step ds ks i turnScore' =
     (if kept_at ks i \<and> ds ! i \<noteq> 1 \<and> ds ! i \<noteq> 4 then turnScore' + ds ! i else turnScore')"

definition endTurn_turnScore :: "int list \<Rightarrow> bool list \<Rightarrow> int" where
  "endTurn_turnScore ds ks =
     (let hasOne = hasKept 1 ds ks; hasFour = hasKept 4 ds ks
      in if hasOne \<and> hasFour then fold (score_step ds ks) [0..<6] 0 else 0)"

text \<open>
  The client's preview of the same score, \<open>calculateTurnScore\<close> of the room component:
  \<open>None\<close> is its \<open>null\<close>. The loop carries \<open>(score, foundOne, foundFour)\<close>.
\<close>

definition keptValues :: "int list \<Rightarrow> bool list \<Rightarrow> int list" where
  "keptValues ds ks = map (\<lambda>i. ds ! i) (filter (kept_at ks) [0..<length ds])"

definition calc_step :: "int list \<Rightarrow> bool list \<Rightarrow> nat \<Rightarrow> int \<times> bool \<times> bool \<Rightarrow> int \<times> bool \<times> bool" where
  "calc_step ds ks i acc =
     (case acc of (score, foundOne, foundFour) \<Rightarrow>
        if kept_at ks i then
          (if ds ! i = 1 \<and> \<not> foundOne then (score, True, foundFour)
           else if ds ! i = 4 \<and> \<not> foundFour then (score, foundOne, True)
           else (score + ds ! i, foundOne, foundFour))
        else acc)"

definition calculateTurnScore :: "int list \<Rightarrow> bool list \<Rightarrow> int option" where
  "calculateTurnScore ds ks =
     (let hasOne = (1 \<in> set (keptValues ds ks)); hasFour = (4 \<in> set (keptValues ds ks))
      in if \<not> hasOne \<or> \<not> hasFour then None
         else Some (fst (fold (calc_step ds ks) [0..<length ds] (0, False, False))))"

section \<open>The store, the sockets and the handlers\<close>

text \<open>
  Every handler loads the room's state from the store, changes its own copy, and writes it
  back and broadcasts it only where the source calls \<open>saveGameState\<close> and \<open>emit\<close>. The
  world holds the store (one state per room key; the JSON round trip is the identity on
  these states, and the store is taken to be available), \<open>socket.data.roomId\<close> of every
  socket, the messages emitted so far, and the roll completions scheduled with
  \<open>setTimeout\<close>. A handler runs from its load to its last write without another handler
  in between; the one-second delay of \<open>rollDice\<close> is the exception, and its completion is
  a step of its own (\<open>rollDice_timeout\<close>) that loads the state again.

  \<open>GameStateUpdate r s\<close> is \<open>io.to(r).emit("gameStateUpdate", s)\<close>, \<open>GameStateUpdateTo i s\<close>
  is \<open>socket.emit("gameStateUpdate", s)\<close> on socket \<open>i\<close>, \<open>SystemMessage r m\<close> is
  \<open>io.to(r).emit("systemMessage", m)\<close> and \<open>ErrorTo i m\<close> is \<open>socket.emit("error", ...)\<close>.
\<close>

datatype emit =
    GameStateUpdate string GameState
  | GameStateUpdateTo string GameState
  | SystemMessage string string
  | ErrorTo string string

record world =
  store :: "string \<rightharpoonup> GameState"
  socketData :: "string \<rightharpoonup> string"
  emitted :: "emit list"
  timeouts :: "(string \<times> string) list"

definition world0 :: world where
  "world0 = \<lparr> store = Map.empty, socketData = Map.empty, emitted = [], timeouts = [] \<rparr>"

definition getGameState :: "string \<Rightarrow> world \<Rightarrow> GameState option" where
  "getGameState roomId w = store w roomId"

definition saveGameState :: "string \<Rightarrow> GameState \<Rightarrow> world \<Rightarrow> world" where
  "saveGameState roomId state w = w\<lparr> store := (store w)(roomId \<mapsto> state) \<rparr>"

definition deleteGameState :: "string \<Rightarrow> world \<Rightarrow> world" where
  "deleteGameState roomId w = w\<lparr> store := (store w)(roomId := None) \<rparr>"

definition emit :: "emit \<Rightarrow> world \<Rightarrow> world" where
  "emit e w = w\<lparr> emitted := emitted w @ [e] \<rparr>"

definition notFound :: "string \<Rightarrow> world \<Rightarrow> world" where
  "notFound sid w = emit (ErrorTo sid ''Game room data not found. Please rejoin.'') w"

text \<open>\<open>POST /api/create-room\<close> with the generated identifier \<open>roomId\<close>.\<close>

definition createRoom :: "string \<Rightarrow> world \<Rightarrow> world" where
  "createRoom roomId w = saveGameState roomId createInitialGameState w"

subsection \<open>startNewRound and playAgain\<close>

definition startNewRound_state :: "GameState \<Rightarrow> GameState" where
  "startNewRound_state roomState =
     (let s1 = roomState\<lparr> roundEnded := False,
                           playersPlayedThisRound := [],
                           roundScores := [],
                           scores := map (\<lambda>(playerId, _). (playerId, 0)) (scores roomState) \<rparr>;
          s2 = (if truthy (roundWinner s1) \<and> map_of (players s1) (the (roundWinner s1)) \<noteq> None
                then (let winner = the (roundWinner s1);
                          newPlayerOrder = playerOrder s1;
                          winnerIndex = indexOf newPlayerOrder winner;
                          s1' = (if winnerIndex \<noteq> - 1
                                 then s1\<lparr> playerOrder := winner # remove1 winner newPlayerOrder \<rparr>
                                 else s1)
                      in s1'\<lparr> currentPlayer := roundWinner s1 \<rparr>)
                else s1\<lparr> currentPlayer :=
                            (if length (playerOrder s1) > 0 then Some (playerOrder s1 ! 0) else None) \<rparr>)
      in resetTurnState s2)"

definition startNewRound :: "string \<Rightarrow> world \<Rightarrow> world" where
  "startNewRound roomId w =
     (case getGameState roomId w of
        None \<Rightarrow> w
      | Some roomState \<Rightarrow> saveGameState roomId (startNewRound_state roomState) w)"

definition playAgain :: "string \<Rightarrow> world \<Rightarrow> world" where
  "playAgain sid w =
     (case socketData w sid of
        None \<Rightarrow> w
      | Some roomId \<Rightarrow>
          (case getGameState roomId w of
             None \<Rightarrow> notFound sid w
           | Some roomState \<Rightarrow>
               if \<not> roundEnded roomState then w
               else (let w1 = startNewRound roomId w
                     in case getGameState roomId w1 of
                          Some updatedState \<Rightarrow> emit (GameStateUpdate roomId updatedState) w1
                        | None \<Rightarrow> w1)))"

subsection \<open>disconnect\<close>

definition disconnect :: "string \<Rightarrow> world \<Rightarrow> world" where
  "disconnect sid w =
     (case socketData w sid of
        None \<Rightarrow> w
      | Some roomId \<Rightarrow>
          (case getGameState roomId w of
             None \<Rightarrow> w
           | Some roomState \<Rightarrow>
               (let wasCurrentPlayer = (currentPlayer roomState = Some sid);
                    s1 = roomState\<lparr> players := AList.delete sid (players roomState),
                                    scores := AList.delete sid (scores roomState),
                                    roundScores := AList.delete sid (roundScores roomState),
                                    playerOrder := filter (\<lambda>i. i \<noteq> sid) (playerOrder roomState),
                                    playersPlayedThisRound :=
                                      remove1 sid (playersPlayedThisRound roomState) \<rparr>;
                    s2 = (if wasCurrentPlayer
                          then (let nextPlayer = getNextPlayer s1
                                in if truthy nextPlayer
                                   then resetTurnState (s1\<lparr> currentPlayer := nextPlayer \<rparr>)
                                   else s1\<lparr> currentPlayer := None \<rparr>)
                          else s1)
                in if length (Object_keys (players s2)) > 0
                   then emit (GameStateUpdate roomId s2) (saveGameState roomId s2 w)
                   else deleteGameState roomId w)))"

subsection \<open>rollDice and its delayed completion\<close>

text \<open>
  \<open>rnd i\<close> is the value \<open>Math.random()\<close> returns in iteration \<open>i\<close> of the rolling loop;
  its contract is \<open>0 \<le> rnd i < 1\<close>.
\<close>

definition roll_step :: "(nat \<Rightarrow> real) \<Rightarrow> bool list \<Rightarrow> nat \<Rightarrow> int list \<Rightarrow> int list" where
  "roll_step rnd ks i ds =
     (if \<not> kept_at ks i then js_set 0 ds i (\<lfloor>rnd i * 6\<rfloor> + 1) else ds)"

definition rollDice :: "string \<Rightarrow> world \<Rightarrow> world" where
  "rollDice sid w =
     (case socketData w sid of
        None \<Rightarrow> w
      | Some roomId \<Rightarrow>
          (case getGameState roomId w of
             None \<Rightarrow> notFound sid w
           | Some roomState \<Rightarrow>
               if Some sid \<noteq> currentPlayer roomState then w
               else if mustKeepDie roomState then w
               else (let canRollAnyDice = list_ex (\<lambda>kept. \<not> kept) (keptDice roomState)
                     in if \<not> canRollAnyDice \<and> rollCount roomState > 0 then w
                        else (let s1 = roomState\<lparr> isRolling := True \<rparr>;
                                  w1 = emit (GameStateUpdate roomId s1) (saveGameState roomId s1 w)
                              in w1\<lparr> timeouts := timeouts w1 @ [(sid, roomId)] \<rparr>))))"

definition rollDice_timeout :: "string \<Rightarrow> string \<Rightarrow> (nat \<Rightarrow> real) \<Rightarrow> world \<Rightarrow> world" where
  "rollDice_timeout sid roomId rnd w =
     (case getGameState roomId w of
        None \<Rightarrow> w
      | Some currentState \<Rightarrow>
          if currentPlayer currentState \<noteq> Some sid \<or> \<not> isRolling currentState then w
          else (let s1 = currentState\<lparr> dice := fold (roll_step rnd (keptDice currentState))
                                                      [0..<6] (dice currentState),
                                        rollCount := rollCount currentState + 1,
                                        mustKeepDie := True,
                                        isRolling := False \<rparr>
                in emit (GameStateUpdate roomId s1) (saveGameState roomId s1 w)))"

subsection \<open>keepDice\<close>

text \<open>
  \<open>keepDice\<close> below is the handler on an integer index (the client sent the number
  \<open>index\<close>); \<open>toggleKeep\<close> is its toggle, once its checks have passed. A die beyond the end
  of \<open>dice\<close> reads \<open>undefined\<close>, which is not \<open>=== 0\<close>. The handler on an arbitrary value
  is \<open>keepDice_payload\<close> further down; the two agree on integers
  (\<open>keepDice_payload_integer\<close>).
\<close>

definition toggleKeep :: "nat \<Rightarrow> GameState \<Rightarrow> GameState" where
  "toggleKeep i roomState =
     (let wasKept = kept_at (keptDice roomState) i;
          s1 = roomState\<lparr> keptDice := js_set False (keptDice roomState) i (\<not> wasKept) \<rparr>
      in if kept_at (keptDice s1) i then s1\<lparr> mustKeepDie := False \<rparr>
         else (let anyDieKept = list_ex (\<lambda>kept. kept) (keptDice s1)
               in if \<not> anyDieKept then s1\<lparr> mustKeepDie := True \<rparr> else s1))"

definition keepDice :: "string \<Rightarrow> int \<Rightarrow> world \<Rightarrow> world" where
  "keepDice sid index w =
     (case socketData w sid of
        None \<Rightarrow> w
      | Some roomId \<Rightarrow>
          (case getGameState roomId w of
             None \<Rightarrow> notFound sid w
           | Some roomState \<Rightarrow>
               if Some sid \<noteq> currentPlayer roomState then w
               else if rollCount roomState = 0 then w
               else if index < 0 \<or> index \<ge> 6 then w
               else if nat index < length (dice roomState) \<and> dice roomState ! nat index = 0 then w
               else (let s1 = toggleKeep (nat index) roomState
                     in emit (GameStateUpdate roomId s1) (saveGameState roomId s1 w))))"

subsection \<open>keepDice on any value\<close>

text \<open>
  The annotation \<open>index: number\<close> is erased when the server runs: the handler receives
  whatever JSON value the client sent (or \<open>undefined\<close>, if it sent none). The handler
  reads that value in two ways only: as a number, in \<open>index < 0 || index >= 6\<close>
  (\<open>ToNumber\<close>), and as a property key, in \<open>dice[index]\<close> and \<open>keptDice[index]\<close>. A value
  is therefore described by its number and by what its key names on an array:
  \<^item> \<open>Index i\<close>: the key is the array index \<open>i\<close>. These are the number \<open>i\<close>, the string of
    its decimal digits (\<open>"3"\<close>) and an array or object that converts to that string
    (\<open>[3]\<close>); as a number each of them is \<open>i\<close>.
  \<^item> \<open>LengthName\<close>: the key is \<open>length\<close> (the string \<open>"length"\<close>, or \<open>["length"]\<close>); as a
    number it is \<open>NaN\<close>.
  \<^item> \<open>InheritedName s\<close>: the key \<open>s\<close> names a property that arrays inherit (\<open>"push"\<close>,
    \<open>"some"\<close>, \<open>"constructor"\<close>, \<open>"__proto__"\<close>); its value is a function or an object, so
    it is truthy and not \<open>=== 0\<close>; as a number the value is \<open>NaN\<close>.
  \<^item> \<open>Other n\<close>: the key names nothing on an array, and the value is \<open>n\<close> as a number:
    \<open>2.5\<close> is \<open>Other (Finite 2.5)\<close>, \<open>-1\<close> is \<open>Other (Finite (-1))\<close>, \<open>"foo"\<close>, \<open>NaN\<close> and a
    missing argument are \<open>Other NaN\<close>, \<open>null\<close> and \<open>""\<close> are \<open>Other (Finite 0)\<close>, \<open>true\<close> is
    \<open>Other (Finite 1)\<close>.
  A comparison with \<open>NaN\<close> is false.
\<close>

datatype jsnumber = Finite real | NaN | PosInfinity | NegInfinity

datatype payload =
    Index nat
  | LengthName
  | InheritedName string
  | Other jsnumber

definition ToNumber :: "payload \<Rightarrow> jsnumber" where
  "ToNumber v =
     (case v of
        Index i \<Rightarrow> Finite (real i)
      | LengthName \<Rightarrow> NaN
      | InheritedName s \<Rightarrow> NaN
      | Other n \<Rightarrow> n)"

definition js_less :: "jsnumber \<Rightarrow> real \<Rightarrow> bool" where
  "js_less x c =
     (case x of Finite r \<Rightarrow> r < c | NaN \<Rightarrow> False | PosInfinity \<Rightarrow> False | NegInfinity \<Rightarrow> True)"

definition js_greater_eq :: "jsnumber \<Rightarrow> real \<Rightarrow> bool" where
  "js_greater_eq x c =
     (case x of Finite r \<Rightarrow> r \<ge> c | NaN \<Rightarrow> False | PosInfinity \<Rightarrow> True | NegInfinity \<Rightarrow> False)"

text \<open>The number \<open>i\<close> as a value.\<close>

definition integer_value :: "int \<Rightarrow> payload" where
  "integer_value i = (if 0 \<le> i then Index (nat i) else Other (Finite (real_of_int i)))"

text \<open>
  \<open>dice[index] === 0\<close>, and the truthiness of \<open>keptDice[index]\<close> on the array as loaded.
  \<open>dice.length\<close> is a number, zero only for an empty array.
\<close>

definition dice_is_zero :: "int list \<Rightarrow> payload \<Rightarrow> bool" where
  "dice_is_zero ds v =
     (case v of
        Index i \<Rightarrow> i < length ds \<and> ds ! i = 0
      | LengthName \<Rightarrow> length ds = 0
      | InheritedName s \<Rightarrow> False
      | Other n \<Rightarrow> False)"

definition kept_read :: "bool list \<Rightarrow> payload \<Rightarrow> bool" where
  "kept_read ks v =
     (case v of
        Index i \<Rightarrow> kept_at ks i
      | LengthName \<Rightarrow> length ks \<noteq> 0
      | InheritedName s \<Rightarrow> True
      | Other n \<Rightarrow> False)"

text \<open>
  \<open>keptDice[index] = b\<close>. On an index it writes the element. On \<open>length\<close> it sets the
  length to \<open>b\<close> as a number, \<open>0\<close> or \<open>1\<close>: the array is cut, or grows by a hole. On any
  other key it creates a property of the array object that is not an element; the elements
  stay, and the property is not part of what \<open>JSON.stringify\<close> writes, so it lives until
  the handler returns. \<open>kept_reread\<close> is the truthiness of \<open>keptDice[index]\<close> after that
  assignment; an assignment to \<open>__proto__\<close> of a value that is not an object is ignored.
\<close>

definition set_length :: "nat \<Rightarrow> bool list \<Rightarrow> bool list" where
  "set_length n ks = take n ks @ replicate (n - length ks) False"

definition kept_assign :: "bool list \<Rightarrow> payload \<Rightarrow> bool \<Rightarrow> bool list" where
  "kept_assign ks v b =
     (case v of
        Index i \<Rightarrow> js_set False ks i b
      | LengthName \<Rightarrow> set_length (if b then 1 else 0) ks
      | InheritedName s \<Rightarrow> ks
      | Other n \<Rightarrow> ks)"

definition kept_reread :: "bool list \<Rightarrow> payload \<Rightarrow> bool \<Rightarrow> bool" where
  "kept_reread ks v b =
     (case v of
        Index i \<Rightarrow> kept_at ks i
      | LengthName \<Rightarrow> length ks \<noteq> 0
      | InheritedName s \<Rightarrow> (if s = ''__proto__'' then True else b)
      | Other n \<Rightarrow> b)"

text \<open>
  The toggle on any value. After \<open>keptDice["some"] = false\<close> the call \<open>keptDice.some(...)\<close>
  throws a \<open>TypeError\<close>: the handler ends there, before \<open>saveGameState\<close> and \<open>emit\<close>
  (\<open>None\<close>).
\<close>

definition some_is_overwritten :: "payload \<Rightarrow> bool" where
  "some_is_overwritten v =
     (case v of
        Index i \<Rightarrow> False
      | LengthName \<Rightarrow> False
      | InheritedName s \<Rightarrow> s = ''some''
      | Other n \<Rightarrow> False)"

definition toggleKeep_payload :: "payload \<Rightarrow> GameState \<Rightarrow> GameState option" where
  "toggleKeep_payload index roomState =
     (let wasKept = kept_read (keptDice roomState) index;
          s1 = roomState\<lparr> keptDice := kept_assign (keptDice roomState) index (\<not> wasKept) \<rparr>
      in if kept_reread (keptDice s1) index (\<not> wasKept) then Some (s1\<lparr> mustKeepDie := False \<rparr>)
         else if some_is_overwritten index then None
         else (let anyDieKept = list_ex (\<lambda>kept. kept) (keptDice s1)
               in if \<not> anyDieKept then Some (s1\<lparr> mustKeepDie := True \<rparr>) else Some s1))"

definition keepDice_payload :: "string \<Rightarrow> payload \<Rightarrow> world \<Rightarrow> world" where
  "keepDice_payload sid index w =
     (case socketData w sid of
        None \<Rightarrow> w
      | Some roomId \<Rightarrow>
          (case getGameState roomId w of
             None \<Rightarrow> notFound sid w
           | Some roomState \<Rightarrow>
               if Some sid \<noteq> currentPlayer roomState then w
               else if rollCount roomState = 0 then w
               else if js_less (ToNumber index) 0 \<or> js_greater_eq (ToNumber index) 6 then w
               else if dice_is_zero (dice roomState) index then w
               else (case toggleKeep_payload index roomState of
                       None \<Rightarrow> w
                     | Some s1 \<Rightarrow>
                         emit (GameStateUpdate roomId s1) (saveGameState roomId s1 w))))"

subsection \<open>joinRoom\<close>

definition MAX_RETRIES :: nat where
  "MAX_RETRIES = 5"

primrec retry_fetch :: "nat \<Rightarrow> string \<Rightarrow> world \<Rightarrow> GameState option \<Rightarrow> GameState option" where
  "retry_fetch 0 roomId w roomState = roomState"
| "retry_fetch (Suc n) roomId w roomState =
     (case roomState of
        None \<Rightarrow> retry_fetch n roomId w (getGameState roomId w)
      | Some s \<Rightarrow> Some s)"

definition safePlayerName :: "string \<Rightarrow> string option \<Rightarrow> string" where
  "safePlayerName sid playerName =
     (case playerName of
        None \<Rightarrow> ''Player_'' @ take 4 sid
      | Some n \<Rightarrow> if trim n \<noteq> [] then trim n else ''Player_'' @ take 4 sid)"

definition join_state :: "string \<Rightarrow> string option \<Rightarrow> GameState \<Rightarrow> GameState" where
  "join_state sid playerName roomState =
     (let s1 = roomState\<lparr> players :=
                  AList.update sid \<lparr> idP = sid, nameP = safePlayerName sid playerName \<rparr>
                    (players roomState) \<rparr>;
          s2 = (if map_of (scores s1) sid = None
                then s1\<lparr> scores := AList.update sid 0 (scores s1) \<rparr> else s1);
          s3 = (if map_of (roundScores s2) sid = None
                then s2\<lparr> roundScores := AList.update sid 0 (roundScores s2) \<rparr> else s2);
          s4 = (if sid \<notin> set (playerOrder s3)
                then s3\<lparr> playerOrder := playerOrder s3 @ [sid] \<rparr> else s3)
      in if \<not> truthy (currentPlayer s4)
         then resetTurnState (s4\<lparr> currentPlayer := Some sid \<rparr>)
         else s4)"

definition joinRoom :: "string \<Rightarrow> string \<Rightarrow> string option \<Rightarrow> world \<Rightarrow> world" where
  "joinRoom sid roomId playerName w =
     (let fetched = retry_fetch MAX_RETRIES roomId w (getGameState roomId w);
          (roomState, w1) =
             (case fetched of
                Some s \<Rightarrow> (s, w)
              | None \<Rightarrow>
                  (createInitialGameState,
                   emit (SystemMessage roomId
                     ''Room data was recovered after an issue. Some game state may have been reset.'')
                     (saveGameState roomId createInitialGameState w)));
          s1 = join_state sid playerName roomState;
          w2 = saveGameState roomId s1 w1;
          w3 = emit (GameStateUpdate roomId s1) (emit (GameStateUpdateTo sid s1) w2)
      in w3\<lparr> socketData := (socketData w3)(sid \<mapsto> roomId) \<rparr>)"

subsection \<open>endTurn\<close>

text \<open>
  Both server files score the turn, add it to \<open>scores\<close>, record it in \<open>roundScores\<close> and
  mark the caller as having played in the same way (\<open>endTurn_record\<close>), and both close
  the round in the same way. They differ after that: the handler of the file with the
  Redis adapter (\<open>endTurn\<close>) ends there, the handler of the other file
  (\<open>endTurn_earlier\<close>) goes on to advance the turn.
\<close>

definition endTurn_record :: "string \<Rightarrow> GameState \<Rightarrow> GameState" where
  "endTurn_record sid roomState =
     (let turnScore' = endTurn_turnScore (dice roomState) (keptDice roomState);
          s1 = roomState\<lparr> scores :=
                  AList.update sid
                    ((case map_of (scores roomState) sid of None \<Rightarrow> 0 | Some v \<Rightarrow> v) + turnScore')
                    (scores roomState) \<rparr>;
          s2 = s1\<lparr> roundScores := AList.update sid turnScore' (roundScores s1) \<rparr>
      in if sid \<notin> set (playersPlayedThisRound s2)
         then s2\<lparr> playersPlayedThisRound := playersPlayedThisRound s2 @ [sid] \<rparr>
         else s2)"

definition endRound :: "string \<Rightarrow> GameState \<Rightarrow> world \<Rightarrow> world" where
  "endRound roomId roomState w =
     (let roundWinner' = determineRoundWinner roomState;
          s1 = roomState\<lparr> roundEnded := True, roundWinner := roundWinner' \<rparr>
      in emit (GameStateUpdate roomId s1) (saveGameState roomId s1 w))"

definition endTurn :: "string \<Rightarrow> world \<Rightarrow> world" where
  "endTurn sid w =
     (case socketData w sid of
        None \<Rightarrow> w
      | Some roomId \<Rightarrow>
          (case getGameState roomId w of
             None \<Rightarrow> notFound sid w
           | Some roomState \<Rightarrow>
               if Some sid \<noteq> currentPlayer roomState then w
               else (let s1 = endTurn_record sid roomState
                     in if checkRoundEnd s1 then endRound roomId s1 w
                        else w)))"

definition advanceTurn :: "GameState \<Rightarrow> GameState" where
  "advanceTurn roomState =
     (let nextPlayer = getNextPlayer roomState
      in if truthy nextPlayer
         then resetTurnState (roomState\<lparr> currentPlayer := nextPlayer \<rparr>)
         else roomState\<lparr> currentPlayer := None \<rparr>)"

definition endTurn_earlier :: "string \<Rightarrow> world \<Rightarrow> world" where
  "endTurn_earlier sid w =
     (case socketData w sid of
        None \<Rightarrow> w
      | Some roomId \<Rightarrow>
          (case getGameState roomId w of
             None \<Rightarrow> notFound sid w
           | Some roomState \<Rightarrow>
               if Some sid \<noteq> currentPlayer roomState then w
               else (let s1 = endTurn_record sid roomState
                     in if checkRoundEnd s1 then endRound roomId s1 w
                        else (let s2 = advanceTurn s1
                              in emit (GameStateUpdate roomId s2) (saveGameState roomId s2 w)))))"

subsection \<open>Reachable worlds\<close>

text \<open>
  The worlds the server can be in: it starts with an empty store, rooms are created, and
  any socket may send any event at any time, \<open>keepDice\<close> with any value. A roll completion
  may run at any time, for any socket and room (a superset of the scheduled ones), with
  random values in \<open>[0, 1)\<close>. Both \<open>endTurn\<close> handlers are steps.
\<close>

inductive reachable :: "world \<Rightarrow> bool" where
  r_init: "reachable world0"
| r_createRoom: "reachable w \<Longrightarrow> reachable (createRoom roomId w)"
| r_joinRoom: "reachable w \<Longrightarrow> reachable (joinRoom sid roomId playerName w)"
| r_rollDice: "reachable w \<Longrightarrow> reachable (rollDice sid w)"
| r_timeout: "reachable w \<Longrightarrow> (\<forall>i<6. 0 \<le> rnd i \<and> rnd i < 1) \<Longrightarrow>
              reachable (rollDice_timeout sid roomId rnd w)"
| r_keepDice: "reachable w \<Longrightarrow> reachable (keepDice_payload sid index w)"
| r_endTurn: "reachable w \<Longrightarrow> reachable (endTurn sid w)"
| r_endTurn_earlier: "reachable w \<Longrightarrow> reachable (endTurn_earlier sid w)"
| r_playAgain: "reachable w \<Longrightarrow> reachable (playAgain sid w)"
| r_disconnect: "reachable w \<Longrightarrow> reachable (disconnect sid w)"

subsection \<open>Example rooms\<close>

text \<open>
  A room \<open>r\<close> with the two players \<open>A\<close> and \<open>B\<close>, as two joins leave it, and a world
  holding that one room with both sockets bound to it.
\<close>

definition two_players :: GameState where
  "two_players =
     createInitialGameState\<lparr>
       players := [(''A'', \<lparr> idP = ''A'', nameP = ''Ann'' \<rparr>), (''B'', \<lparr> idP = ''B'', nameP = ''Bob'' \<rparr>)],
       currentPlayer := Some ''A'',
       scores := [(''A'', 0), (''B'', 0)],
       roundScores := [(''A'', 0), (''B'', 0)],
       playerOrder := [''A'', ''B''] \<rparr>"

definition one_room :: "GameState \<Rightarrow> world" where
  "one_room st =
     \<lparr> store = [''r'' \<mapsto> st],
       socketData = [''A'' \<mapsto> ''r'', ''B'' \<mapsto> ''r''],
       emitted = [],
       timeouts = [] \<rparr>"

text \<open>
  The world after the room \<open>r\<close> has been created and \<open>A\<close>, then \<open>B\<close>, have joined it.
\<close>

definition demo_world :: world where
  "demo_world =
     joinRoom ''B'' ''r'' (Some ''Bob'')
       (joinRoom ''A'' ''r'' (Some ''Ann'') (createRoom ''r'' world0))"

subsection \<open>Six dice and six kept flags\<close>

definition six_dice :: "GameState \<Rightarrow> bool" where
  "six_dice st = (length (dice st) = 6 \<and> length (keptDice st) = 6)"

definition all_six :: "world \<Rightarrow> bool" where
  "all_six w = (\<forall>roomId st. store w roomId = Some st \<longrightarrow> six_dice st)"

subsection \<open>A room whose kept flags are cut\<close>

text \<open>
  \<open>alone_A\<close> is the room after \<open>A\<close> has joined it. In \<open>rolled_world\<close> the room \<open>r\<close> has
  been created, \<open>A\<close> has joined and rolled once, and the roll has completed (every
  \<open>Math.random()\<close> returned \<open>0.5\<close>, so every die shows 4). In \<open>truncated_world\<close> the
  socket \<open>A\<close> has then sent \<open>keepDice("length")\<close>.
\<close>

definition alone_A :: GameState where
  "alone_A = createInitialGameState\<lparr>
         players := [(''A'', \<lparr> idP = ''A'', nameP = ''Ann'' \<rparr>)],
         currentPlayer := Some ''A'',
         scores := [(''A'', 0)],
         roundScores := [(''A'', 0)],
         playerOrder := [''A''] \<rparr>"

definition rolled_world :: world where
  "rolled_world =
     rollDice_timeout ''A'' ''r'' (\<lambda>i. 1 / 2)
       (rollDice ''A'' (joinRoom ''A'' ''r'' (Some ''Ann'') (createRoom ''r'' world0)))"

definition truncated_world :: world where
  "truncated_world = keepDice_payload ''A'' LengthName rolled_world"

subsection \<open>What every stored state satisfies\<close>

text \<open>
  Six dice, none negative, at most six kept flags, and round scores that are not negative
  under distinct player ids.
\<close>

definition plausible :: "GameState \<Rightarrow> bool" where
  "plausible st =
     (length (dice st) = 6 \<and> (\<forall>d\<in>set (dice st). 0 \<le> d) \<and> length (keptDice st) \<le> 6 \<and>
      (\<forall>e\<in>set (roundScores st). 0 \<le> snd e) \<and> distinct (map fst (roundScores st)))"

definition all_plausible :: "world \<Rightarrow> bool" where
  "all_plausible w = (\<forall>roomId st. store w roomId = Some st \<longrightarrow> plausible st)"

section \<open>Properties of the state machine\<close>

subsection \<open>Auxiliary facts\<close>

lemma fold_max_ge: "fold max (xs::int list) h \<ge> h"
proof (induction xs arbitrary: h)
  case Nil
  then show ?case by simp
next
  case (Cons a xs)
  have "max a h \<le> fold max xs (max a h)" by (rule Cons.IH)
  then show ?case by simp
qed

lemma winner_step_pair:
  "winner_step (p, s) (h, ws) =
     (if s > h then (s, [p]) else if s = h then (h, ws @ [p]) else (h, ws))"
  by (simp add: winner_step_def)

lemma fold_winner_step:
  "fold winner_step rs (h, ws) =
     (let M = fold max (map snd rs) h
      in (M, if M > h then map fst (filter (\<lambda>e. snd e = M) rs)
             else ws @ map fst (filter (\<lambda>e. snd e = h) rs)))"
proof (induction rs arbitrary: h ws)
  case Nil
  then show ?case by simp
next
  case (Cons e rs)
  obtain p s where e: "e = (p, s)" by (cases e)
  have ge: "\<And>a. fold max (map snd rs) a \<ge> a" by (rule fold_max_ge)
  consider "s > h" | "s = h" | "s < h" by linarith
  then show ?case
  proof cases
    case 1
    then have m: "max s h = s" by simp
    from 1 ge[of s] show ?thesis
      by (auto simp: e winner_step_pair Cons.IH Let_def m)
  next
    case 2
    then show ?thesis
      by (auto simp: e winner_step_pair Cons.IH Let_def)
  next
    case 3
    then have m: "max s h = h" by simp
    from 3 ge[of h] show ?thesis
      by (auto simp: e winner_step_pair Cons.IH Let_def m)
  qed
qed

lemma fold_max_eq:
  assumes "s \<in> set xs" "\<forall>t\<in>set xs. t \<le> s" "h \<le> (s::int)"
  shows "fold max xs h = s"
proof -
  have "fold max xs h = Max (set (h # xs))" by (rule Max.set_eq_fold[symmetric])
  also have "\<dots> = s" using assms by (intro Max_eqI) auto
  finally show ?thesis .
qed




lemma winners_all:
  "snd (fold winner_step rs (- 1, [])) =
     (let M = fold max (map snd rs) (- 1)
      in map fst (filter (\<lambda>e. snd e = M) rs))"
proof -
  have "fold max (map snd rs) (- 1) \<ge> - 1" by (rule fold_max_ge)
  then have "\<not> - 1 < fold max (map snd rs) (- 1) \<Longrightarrow> fold max (map snd rs) (- 1) = - 1"
    by linarith
  then show ?thesis by (auto simp: fold_winner_step Let_def)
qed

lemma filter_unique_key:
  assumes "distinct (map fst rs)" "(p, s) \<in> set rs" "\<forall>e\<in>set rs. fst e \<noteq> p \<longrightarrow> snd e \<noteq> s"
  shows "map fst (filter (\<lambda>e. snd e = s) rs) = [p]"
  using assms
proof (induction rs)
  case Nil
  then show ?case by simp
next
  case (Cons e rs)
  show ?case
  proof (cases "e = (p, s)")
    case True
    have "filter (\<lambda>e. snd e = s) rs = []"
      using Cons.prems True by (auto simp: filter_empty_conv)
    then show ?thesis using True by simp
  next
    case False
    then have "snd e \<noteq> s" using Cons.prems by (cases e) auto
    moreover have "map fst (filter (\<lambda>e. snd e = s) rs) = [p]"
      using Cons.prems False by (intro Cons.IH) auto
    ultimately show ?thesis by simp
  qed
qed

lemma filter_two_keys:
  assumes "(p, s) \<in> set rs" "(q, s) \<in> set rs" "p \<noteq> q"
  shows "length (filter (\<lambda>e. snd e = s) rs) \<ge> 2"
proof -
  have "{(p, s), (q, s)} \<subseteq> set (filter (\<lambda>e. snd e = s) rs)" using assms by auto
  then have "card {(p, s), (q, s)} \<le> card (set (filter (\<lambda>e. snd e = s) rs))"
    by (intro card_mono) auto
  also have "\<dots> \<le> length (filter (\<lambda>e. snd e = s) rs)" by (rule card_length)
  finally show ?thesis using assms(3) by simp
qed


lemma retry_fetch_Some: "retry_fetch n roomId w (Some s) = Some s"
  by (cases n) simp_all

lemma retry_fetch_None:
  "getGameState roomId w = None \<Longrightarrow> retry_fetch n roomId w None = None"
  by (induction n) simp_all

lemma store_saveGameState: "store (saveGameState roomId st w) = (store w)(roomId \<mapsto> st)"
  by (simp add: saveGameState_def)

lemma store_emit: "store (emit e w) = store w"
  by (simp add: emit_def)

lemma joinRoom_store_found:
  "store w roomId = Some st \<Longrightarrow>
   store (joinRoom sid roomId playerName w) roomId = Some (join_state sid playerName st)"
  by (simp add: joinRoom_def getGameState_def retry_fetch_Some Let_def
                store_saveGameState store_emit)

lemma joinRoom_store_missing:
  "store w roomId = None \<Longrightarrow>
   store (joinRoom sid roomId playerName w) roomId
     = Some (join_state sid playerName createInitialGameState)"
  by (simp add: joinRoom_def getGameState_def retry_fetch_None Let_def
                store_saveGameState store_emit)

lemma joinRoom_store_other:
  "r \<noteq> roomId \<Longrightarrow> store (joinRoom sid roomId playerName w) r = store w r"
  by (simp add: joinRoom_def Let_def store_saveGameState store_emit split: option.splits prod.splits)

lemma join_state_players:
  "players (join_state sid playerName st)
     = AList.update sid \<lparr> idP = sid, nameP = safePlayerName sid playerName \<rparr> (players st)"
  by (simp add: join_state_def Let_def resetTurnState_def)

lemma join_state_played:
  "playersPlayedThisRound (join_state sid playerName st) = playersPlayedThisRound st"
  by (simp add: join_state_def Let_def resetTurnState_def)

lemma startNewRound_state_frame:
  "roundWinner (startNewRound_state st) = roundWinner st"
  "roundEnded (startNewRound_state st) = False"
  "playersPlayedThisRound (startNewRound_state st) = []"
  "roundScores (startNewRound_state st) = []"
  "scores (startNewRound_state st) = map (\<lambda>(playerId, _). (playerId, 0)) (scores st)"
  by (simp_all add: startNewRound_state_def Let_def resetTurnState_def)

lemma js_set_in_range: "i < length xs \<Longrightarrow> js_set d xs i v = xs[i := v]"
  by (simp add: js_set_def)

lemma roll_step_apply:
  "roll_step rnd ks i ds = (if \<not> kept_at ks i then js_set 0 ds i (\<lfloor>rnd i * 6\<rfloor> + 1) else ds)"
  by (simp add: roll_step_def)

lemma roll_fold:
  "n \<le> length ds \<Longrightarrow>
   length (fold (roll_step rnd ks) [0..<n] ds) = length ds \<and>
   (\<forall>i<length ds. fold (roll_step rnd ks) [0..<n] ds ! i
        = (if i < n \<and> \<not> kept_at ks i then \<lfloor>rnd i * 6\<rfloor> + 1 else ds ! i))"
proof (induction n)
  case 0
  then show ?case by simp
next
  case (Suc n)
  then have IH: "length (fold (roll_step rnd ks) [0..<n] ds) = length ds"
     "\<forall>i<length ds. fold (roll_step rnd ks) [0..<n] ds ! i
        = (if i < n \<and> \<not> kept_at ks i then \<lfloor>rnd i * 6\<rfloor> + 1 else ds ! i)"
    by auto
  from Suc.prems have n: "n < length ds" by simp
  define p where "p = fold (roll_step rnd ks) [0..<n] ds"
  have step: "fold (roll_step rnd ks) [0..<Suc n] ds = roll_step rnd ks n p"
    by (simp add: p_def)
  have lp: "length p = length ds"
    and np: "\<forall>i<length ds. p ! i = (if i < n \<and> \<not> kept_at ks i then \<lfloor>rnd i * 6\<rfloor> + 1 else ds ! i)"
    using IH by (simp_all add: p_def)
  have r: "roll_step rnd ks n p = (if \<not> kept_at ks n then p[n := \<lfloor>rnd n * 6\<rfloor> + 1] else p)"
    using n lp by (simp add: roll_step_apply js_set_in_range)
  show ?case
    unfolding step r using lp np n
    by (auto simp: nth_list_update less_Suc_eq)
qed

lemma floor_die:
  assumes "0 \<le> (r::real)" "r < 1"
  shows "1 \<le> \<lfloor>r * 6\<rfloor> + 1 \<and> \<lfloor>r * 6\<rfloor> + 1 \<le> 6"
proof -
  have "0 \<le> r * 6" using assms by simp
  then have a: "0 \<le> \<lfloor>r * 6\<rfloor>" by simp
  have "r * 6 < 6" using assms by simp
  then have "\<lfloor>r * 6\<rfloor> < 6" by (simp add: floor_less_iff)
  with a show ?thesis by simp
qed

lemma emitted_saveGameState: "emitted (saveGameState roomId st w) = emitted w"
  by (simp add: saveGameState_def)

lemma emitted_emit: "emitted (emit e w) = emitted w @ [e]"
  by (simp add: emit_def)

lemma toggleKeep_apply:
  "i < length (keptDice st) \<Longrightarrow>
   toggleKeep i st =
     (if \<not> keptDice st ! i
      then st\<lparr> keptDice := (keptDice st)[i := True], mustKeepDie := False \<rparr>
      else if \<not> list_ex (\<lambda>kept. kept) ((keptDice st)[i := False])
           then st\<lparr> keptDice := (keptDice st)[i := False], mustKeepDie := True \<rparr>
           else st\<lparr> keptDice := (keptDice st)[i := False] \<rparr>)"
  by (simp add: toggleKeep_def kept_at_def js_set_in_range Let_def)

lemma toggleKeep_twice:
  assumes "i < length (keptDice st)"
  shows "toggleKeep i (toggleKeep i st)
           = st\<lparr> mustKeepDie := \<not> list_ex (\<lambda>kept. kept) (keptDice st) \<rparr>"
proof (cases "keptDice st ! i")
  case True
  have "keptDice st ! i \<in> set (keptDice st)" using assms by (rule nth_mem)
  then have ex: "list_ex (\<lambda>kept. kept) (keptDice st)"
    using True unfolding list_ex_iff by blast
  have restore: "(keptDice st)[i := False, i := True] = keptDice st"
    using True assms by (simp add: list_update_same_conv)
  define s1 where "s1 = toggleKeep i st"
  have k1: "keptDice s1 = (keptDice st)[i := False]"
    using assms True by (simp add: s1_def toggleKeep_apply)
  have rest: "s1\<lparr> keptDice := keptDice st, mustKeepDie := False \<rparr>
                = st\<lparr> mustKeepDie := False \<rparr>"
    using assms True by (simp add: s1_def toggleKeep_apply)
  have i1: "i < length (keptDice s1)" and n1: "\<not> keptDice s1 ! i"
    using assms by (simp_all add: k1)
  have "toggleKeep i s1 = s1\<lparr> keptDice := (keptDice s1)[i := True], mustKeepDie := False \<rparr>"
    using n1 by (simp add: toggleKeep_apply[OF i1])
  also have "\<dots> = s1\<lparr> keptDice := keptDice st, mustKeepDie := False \<rparr>"
    by (simp only: k1 restore)
  also note rest
  finally show ?thesis using ex by (simp add: s1_def)
next
  case False
  have restore: "(keptDice st)[i := True, i := False] = keptDice st"
    using False assms by (simp add: list_update_same_conv)
  define s1 where "s1 = toggleKeep i st"
  have s1: "s1 = st\<lparr> keptDice := (keptDice st)[i := True], mustKeepDie := False \<rparr>"
    using False by (simp add: s1_def toggleKeep_apply[OF assms])
  have k1: "keptDice s1 = (keptDice st)[i := True]" by (simp add: s1)
  have i1: "i < length (keptDice s1)" and y1: "keptDice s1 ! i"
    using assms by (simp_all add: k1)
  have "toggleKeep i s1 =
          (if \<not> list_ex (\<lambda>kept. kept) ((keptDice s1)[i := False])
           then s1\<lparr> keptDice := (keptDice s1)[i := False], mustKeepDie := True \<rparr>
           else s1\<lparr> keptDice := (keptDice s1)[i := False] \<rparr>)"
    using y1 by (simp add: toggleKeep_apply[OF i1])
  also have "(keptDice s1)[i := False] = keptDice st" by (simp only: k1 restore)
  finally have "toggleKeep i s1 =
          (if \<not> list_ex (\<lambda>kept. kept) (keptDice st)
           then s1\<lparr> keptDice := keptDice st, mustKeepDie := True \<rparr>
           else s1\<lparr> keptDice := keptDice st \<rparr>)" .
  then show ?thesis unfolding s1_def[symmetric] by (simp add: s1)
qed

lemma toggleKeep_frame:
  "currentPlayer (toggleKeep i st) = currentPlayer st"
  "rollCount (toggleKeep i st) = rollCount st"
  "dice (toggleKeep i st) = dice st"
  by (simp_all add: toggleKeep_def Let_def)

lemma keepDice_accepted:
  assumes "socketData w sid = Some roomId" "store w roomId = Some st"
    "currentPlayer st = Some sid" "rollCount st \<noteq> 0" "0 \<le> index" "index < 6"
    "length (dice st) = 6" "dice st ! nat index \<noteq> 0"
  shows "keepDice sid index w
           = emit (GameStateUpdate roomId (toggleKeep (nat index) st))
               (saveGameState roomId (toggleKeep (nat index) st) w)"
  using assms by (simp add: keepDice_def getGameState_def Let_def)

lemma socketData_saveGameState: "socketData (saveGameState roomId st w) = socketData w"
  by (simp add: saveGameState_def)

lemma socketData_emit: "socketData (emit e w) = socketData w"
  by (simp add: emit_def)

subsection \<open>Steps that keep six dice and six kept flags\<close>

lemma six_dice_initial: "six_dice createInitialGameState"
  by (simp add: six_dice_def createInitialGameState_def)

lemma six_dice_resetTurnState: "six_dice (resetTurnState st)"
  by (simp add: six_dice_def resetTurnState_def)

lemma six_dice_join_state: "six_dice st \<Longrightarrow> six_dice (join_state sid playerName st)"
  by (simp add: six_dice_def join_state_def Let_def resetTurnState_def)

lemma six_dice_startNewRound_state: "six_dice (startNewRound_state st)"
  by (simp add: startNewRound_state_def Let_def six_dice_resetTurnState)

lemma six_dice_endTurn_record: "six_dice st \<Longrightarrow> six_dice (endTurn_record sid st)"
  by (simp add: six_dice_def endTurn_record_def Let_def)

lemma six_dice_advanceTurn: "six_dice st \<Longrightarrow> six_dice (advanceTurn st)"
  by (simp add: six_dice_def advanceTurn_def Let_def resetTurnState_def)

lemma six_dice_toggleKeep: "six_dice st \<Longrightarrow> i < 6 \<Longrightarrow> six_dice (toggleKeep i st)"
  by (simp add: six_dice_def toggleKeep_apply)

lemma six_dice_roll:
  "six_dice st \<Longrightarrow>
   six_dice (st\<lparr> dice := fold (roll_step rnd (keptDice st)) [0..<6] (dice st),
                  rollCount := rollCount st + 1, mustKeepDie := True, isRolling := False \<rparr>)"
  using roll_fold[of 6 "dice st" rnd "keptDice st"] by (simp add: six_dice_def)

lemma all_six_save: "all_six w \<Longrightarrow> six_dice st \<Longrightarrow> all_six (saveGameState roomId st w)"
  by (simp add: all_six_def store_saveGameState)

lemma all_six_emit: "all_six (emit e w) = all_six w"
  by (simp add: all_six_def store_emit)

lemma all_six_delete: "all_six w \<Longrightarrow> all_six (deleteGameState roomId w)"
  by (simp add: all_six_def deleteGameState_def)

lemma all_six_get: "all_six w \<Longrightarrow> getGameState roomId w = Some st \<Longrightarrow> six_dice st"
  by (simp add: all_six_def getGameState_def)

lemma all_six_world0: "all_six world0"
  by (simp add: all_six_def world0_def)

lemma all_six_createRoom: "all_six w \<Longrightarrow> all_six (createRoom roomId w)"
  by (simp add: createRoom_def all_six_save six_dice_initial)

lemma retry_fetch_result:
  "retry_fetch n roomId w r = Some s \<Longrightarrow> r = Some s \<or> getGameState roomId w = Some s"
  by (induction n arbitrary: r) (auto split: option.splits)

lemma all_six_joinRoom: "all_six w \<Longrightarrow> all_six (joinRoom sid roomId playerName w)"
proof -
  assume a: "all_six w"
  show ?thesis
  proof (cases "retry_fetch MAX_RETRIES roomId w (getGameState roomId w)")
    case None
    have "all_six (saveGameState roomId (join_state sid playerName createInitialGameState)
            (emit (SystemMessage roomId
                     ''Room data was recovered after an issue. Some game state may have been reset.'')
               (saveGameState roomId createInitialGameState w)))"
      using a by (intro all_six_save six_dice_join_state six_dice_initial) (simp add: all_six_emit all_six_save six_dice_initial)
    then show ?thesis
      using None by (simp add: joinRoom_def Let_def all_six_def store_emit)
  next
    case (Some s)
    then have "getGameState roomId w = Some s" using retry_fetch_result by blast
    then have "six_dice s" using a all_six_get by blast
    then have "all_six (saveGameState roomId (join_state sid playerName s) w)"
      using a by (intro all_six_save six_dice_join_state)
    then show ?thesis
      using Some by (simp add: joinRoom_def Let_def all_six_def store_emit)
  qed
qed

lemma all_six_rollDice: "all_six w \<Longrightarrow> all_six (rollDice sid w)"
proof -
  assume a: "all_six w"
  have k: "\<And>roomId st. getGameState roomId w = Some st \<Longrightarrow>
      all_six (saveGameState roomId (st\<lparr> isRolling := True \<rparr>) w)"
    using a by (intro all_six_save) (auto dest: all_six_get simp: six_dice_def)
  show ?thesis
    using a k
    by (auto simp: rollDice_def notFound_def all_six_emit Let_def all_six_def store_emit
             split: option.splits)
qed

lemma all_six_rollDice_timeout: "all_six w \<Longrightarrow> all_six (rollDice_timeout sid roomId rnd w)"
  by (auto simp: rollDice_timeout_def Let_def all_six_emit
           intro!: all_six_save six_dice_roll dest: all_six_get split: option.splits)

lemma all_six_keepDice: "all_six w \<Longrightarrow> all_six (keepDice sid index w)"
  by (auto simp: keepDice_def notFound_def Let_def all_six_emit
           intro!: all_six_save six_dice_toggleKeep dest: all_six_get split: option.splits)

lemma six_dice_endRound_state:
  "six_dice st \<Longrightarrow> six_dice (st\<lparr> roundEnded := True, roundWinner := x \<rparr>)"
  by (simp add: six_dice_def)

lemma all_six_endRound: "all_six w \<Longrightarrow> six_dice st \<Longrightarrow> all_six (endRound roomId st w)"
  by (simp add: endRound_def Let_def all_six_emit all_six_save six_dice_endRound_state)

lemma all_six_endTurn: "all_six w \<Longrightarrow> all_six (endTurn sid w)"
  by (auto simp: endTurn_def notFound_def Let_def all_six_emit
           intro!: all_six_endRound six_dice_endTurn_record dest: all_six_get split: option.splits)

lemma all_six_endTurn_earlier: "all_six w \<Longrightarrow> all_six (endTurn_earlier sid w)"
  by (auto simp: endTurn_earlier_def notFound_def Let_def all_six_emit
           intro!: all_six_endRound all_six_save six_dice_advanceTurn six_dice_endTurn_record
           dest: all_six_get split: option.splits)

lemma all_six_startNewRound: "all_six w \<Longrightarrow> all_six (startNewRound roomId w)"
  by (auto simp: startNewRound_def intro!: all_six_save six_dice_startNewRound_state
           split: option.splits)

lemma all_six_playAgain: "all_six w \<Longrightarrow> all_six (playAgain sid w)"
  by (auto simp: playAgain_def notFound_def Let_def all_six_emit all_six_startNewRound
           split: option.splits)

lemma six_dice_disconnect_state:
  assumes "six_dice st"
  shows "six_dice
     (let s1 = st\<lparr> players := ps, scores := sc, roundScores := rs, playerOrder := po,
                    playersPlayedThisRound := pp \<rparr>
      in if c then (let nextPlayer = getNextPlayer s1
                    in if truthy nextPlayer
                       then resetTurnState (s1\<lparr> currentPlayer := nextPlayer \<rparr>)
                       else s1\<lparr> currentPlayer := None \<rparr>)
         else s1)"
  using assms by (simp add: Let_def six_dice_resetTurnState) (simp add: six_dice_def)

lemma all_six_disconnect: "all_six w \<Longrightarrow> all_six (disconnect sid w)"
proof -
  assume a: "all_six w"
  show ?thesis
  proof (cases "socketData w sid")
    case None
    then show ?thesis using a by (simp add: disconnect_def)
  next
    case (Some roomId)
    show ?thesis
    proof (cases "getGameState roomId w")
      case None
      then show ?thesis using a Some by (simp add: disconnect_def)
    next
      case (Some st)
      then have "six_dice st" using a all_six_get by blast
      from six_dice_disconnect_state[OF this]
      show ?thesis
        using a \<open>socketData w sid = Some roomId\<close> Some
        unfolding disconnect_def
        by (simp add: all_six_emit all_six_save all_six_delete Let_def)
    qed
  qed
qed

subsection \<open>The example world\<close>

lemma demo_world_reachable: "reachable demo_world"
  unfolding demo_world_def by (intro reachable.intros)

lemma join_A: "join_state ''A'' (Some ''Ann'') createInitialGameState =
    createInitialGameState\<lparr>
       players := [(''A'', \<lparr> idP = ''A'', nameP = ''Ann'' \<rparr>)],
       currentPlayer := Some ''A'',
       scores := [(''A'', 0)],
       roundScores := [(''A'', 0)],
       playerOrder := [''A''] \<rparr>"
  by (simp add: join_state_def createInitialGameState_def Let_def safePlayerName_def trim_def
        isSpace_def truthy_def resetTurnState_def)

lemma join_B: "join_state ''B'' (Some ''Bob'')
     (createInitialGameState\<lparr>
       players := [(''A'', \<lparr> idP = ''A'', nameP = ''Ann'' \<rparr>)],
       currentPlayer := Some ''A'',
       scores := [(''A'', 0)],
       roundScores := [(''A'', 0)],
       playerOrder := [''A''] \<rparr>) = two_players"
  by (simp add: join_state_def createInitialGameState_def Let_def safePlayerName_def trim_def
        isSpace_def truthy_def resetTurnState_def two_players_def)

lemma demo_world_store: "store demo_world ''r'' = Some two_players"
proof -
  have "store (createRoom ''r'' world0) ''r'' = Some createInitialGameState"
    by (simp add: createRoom_def store_saveGameState)
  then have "store (joinRoom ''A'' ''r'' (Some ''Ann'') (createRoom ''r'' world0)) ''r''
               = Some (join_state ''A'' (Some ''Ann'') createInitialGameState)"
    by (rule joinRoom_store_found)
  then have "store demo_world ''r''
               = Some (join_state ''B'' (Some ''Bob'')
                        (join_state ''A'' (Some ''Ann'') createInitialGameState))"
    unfolding demo_world_def by (rule joinRoom_store_found)
  then show ?thesis by (simp only: join_A join_B)
qed

lemma socketData_joinRoom:
  "socketData (joinRoom sid roomId playerName w) = (socketData w)(sid \<mapsto> roomId)"
  by (simp add: joinRoom_def Let_def socketData_emit socketData_saveGameState
           split: option.splits prod.splits)

lemma demo_world_socket: "socketData demo_world ''A'' = Some ''r''"
  by (simp add: demo_world_def socketData_joinRoom)

subsection \<open>The two endTurn handlers when the round goes on\<close>

lemma endTurn_not_ended:
  "socketData w sid = Some roomId \<Longrightarrow> store w roomId = Some st \<Longrightarrow>
   currentPlayer st = Some sid \<Longrightarrow> \<not> checkRoundEnd (endTurn_record sid st) \<Longrightarrow>
   endTurn sid w = w"
  by (simp add: endTurn_def getGameState_def Let_def)

lemma endTurn_earlier_not_ended:
  "socketData w sid = Some roomId \<Longrightarrow> store w roomId = Some st \<Longrightarrow>
   currentPlayer st = Some sid \<Longrightarrow> \<not> checkRoundEnd (endTurn_record sid st) \<Longrightarrow>
   endTurn_earlier sid w
     = emit (GameStateUpdate roomId (advanceTurn (endTurn_record sid st)))
         (saveGameState roomId (advanceTurn (endTurn_record sid st)) w)"
  by (simp add: endTurn_earlier_def getGameState_def Let_def)

lemma advanceTurn_result:
  "(truthy (getNextPlayer st) \<longrightarrow>
      advanceTurn st = st\<lparr> currentPlayer := getNextPlayer st, dice := [0, 0, 0, 0, 0, 0],
                            keptDice := [False, False, False, False, False, False],
                            rollCount := 0, turnScore := 0, mustKeepDie := False \<rparr>) \<and>
   (\<not> truthy (getNextPlayer st) \<longrightarrow> advanceTurn st = st\<lparr> currentPlayer := None \<rparr>)"
  by (simp add: advanceTurn_def Let_def resetTurnState_def)

lemma endTurn_record_A:
  "endTurn_record ''A'' two_players = two_players\<lparr> playersPlayedThisRound := [''A''] \<rparr>"
  by (simp add: endTurn_record_def two_players_def createInitialGameState_def Let_def
        endTurn_turnScore_def hasKept_def kept_at_def upt_rec)

lemma not_ended_A: "\<not> checkRoundEnd (endTurn_record ''A'' two_players)"
  by (simp add: endTurn_record_A) (simp add: checkRoundEnd_def two_players_def
        createInitialGameState_def Object_keys_def)

subsection \<open>The server's score\<close>

lemma endTurn_turnScore_nonzero:
  "endTurn_turnScore ds ks \<noteq> 0 \<Longrightarrow> hasKept 1 ds ks \<and> hasKept 4 ds ks"
  by (auto simp: endTurn_turnScore_def Let_def split: if_splits)

subsection \<open>The client's preview of the score\<close>

lemma calculateTurnScore_extra_one:
  "calculateTurnScore [1, 4, 1, 2, 3, 5] [True, True, True, True, False, False] = Some 3"
  by (simp add: calculateTurnScore_def keptValues_def calc_step_def kept_at_def upt_rec)

subsection \<open>The round winner, case by case\<close>

lemma determineRoundWinner_cases:
  "(distinct (map fst (roundScores st)) \<and> (p, s) \<in> set (roundScores st) \<and> - 1 \<le> s \<and>
      (\<forall>e\<in>set (roundScores st). fst e \<noteq> p \<longrightarrow> snd e < s)
        \<longrightarrow> determineRoundWinner st = Some p) \<and>
   ((p, s) \<in> set (roundScores st) \<and> (q, s) \<in> set (roundScores st) \<and> p \<noteq> q \<and>
      (\<forall>e\<in>set (roundScores st). snd e \<le> s)
        \<longrightarrow> determineRoundWinner st = None) \<and>
   (roundScores st = [(''A'', 10), (''B'', 10)] \<longrightarrow> determineRoundWinner st = None) \<and>
   (roundScores st = [(''A'', 12), (''B'', 7)] \<longrightarrow> determineRoundWinner st = Some ''A'')"
proof (intro conjI impI)
  assume a: "distinct (map fst (roundScores st)) \<and> (p, s) \<in> set (roundScores st) \<and> - 1 \<le> s \<and>
      (\<forall>e\<in>set (roundScores st). fst e \<noteq> p \<longrightarrow> snd e < s)"
  then have le: "\<forall>t\<in>set (map snd (roundScores st)). t \<le> s"
  proof (intro ballI)
    fix t assume "t \<in> set (map snd (roundScores st))"
    then obtain k where k: "(k, t) \<in> set (roundScores st)" by auto
    show "t \<le> s"
    proof (cases "k = p")
      case True
      with a k have "t = s" by (metis eq_key_imp_eq_value)
      then show ?thesis by simp
    next
      case False
      with a k have "t < s" by force
      then show ?thesis by simp
    qed
  qed
  have M: "fold max (map snd (roundScores st)) (- 1) = s"
    using a le by (intro fold_max_eq) force+
  have "map fst (filter (\<lambda>e. snd e = s) (roundScores st)) = [p]"
    using a by (intro filter_unique_key) auto
  then show "determineRoundWinner st = Some p"
    by (simp add: determineRoundWinner_def winners_all M)
next
  assume a: "(p, s) \<in> set (roundScores st) \<and> (q, s) \<in> set (roundScores st) \<and> p \<noteq> q \<and>
      (\<forall>e\<in>set (roundScores st). snd e \<le> s)"
  let ?M = "fold max (map snd (roundScores st)) (- 1)"
  show "determineRoundWinner st = None"
  proof (cases "- 1 \<le> s")
    case True
    have M: "?M = s" using a True by (intro fold_max_eq) force+
    have "length (filter (\<lambda>e. snd e = s) (roundScores st)) \<ge> 2"
      using a by (intro filter_two_keys[of p _ _ q]) auto
    then have "length (map fst (filter (\<lambda>e. snd e = s) (roundScores st))) \<ge> 2" by simp
    then show ?thesis
      by (cases "map fst (filter (\<lambda>e. snd e = s) (roundScores st))" rule: list.exhaust[case_names Nil Cons])
         (auto simp: determineRoundWinner_def winners_all M split: list.splits)
  next
    case False
    have ge: "?M \<ge> - 1" by (rule fold_max_ge)
    have "filter (\<lambda>e. snd e = ?M) (roundScores st) = []"
      using a False ge by (auto simp: filter_empty_conv)
    then show ?thesis by (simp add: determineRoundWinner_def winners_all)
  qed
next
  assume "roundScores st = [(''A'', 10), (''B'', 10)]"
  then show "determineRoundWinner st = None"
    by (simp add: determineRoundWinner_def winner_step_pair)
next
  assume "roundScores st = [(''A'', 12), (''B'', 7)]"
  then show "determineRoundWinner st = Some ''A''"
    by (simp add: determineRoundWinner_def winner_step_pair)
qed

subsection \<open>keepDice on any value\<close>

lemma toggleKeep_payload_Index: "toggleKeep_payload (Index i) st = Some (toggleKeep i st)"
  by (simp add: toggleKeep_payload_def toggleKeep_def kept_read_def kept_assign_def
        kept_reread_def some_is_overwritten_def Let_def)

lemma keepDice_payload_integer: "keepDice_payload sid (integer_value i) w = keepDice sid i w"
proof (cases "0 \<le> i")
  case True
  then have "(real (nat i) < 0) = (i < 0)" "(6 \<le> real (nat i)) = (6 \<le> i)"
    by auto
  then show ?thesis
    using True
    by (simp add: keepDice_payload_def keepDice_def integer_value_def ToNumber_def js_less_def
          js_greater_eq_def dice_is_zero_def toggleKeep_payload_Index Let_def
          split: option.splits)
next
  case False
  then show ?thesis
    by (simp add: keepDice_payload_def keepDice_def integer_value_def ToNumber_def js_less_def
          split: option.splits)
qed

lemma six_dice_toggleKeep_payload:
  assumes "six_dice st" "v \<noteq> LengthName"
    "\<not> (js_less (ToNumber v) 0 \<or> js_greater_eq (ToNumber v) 6)"
    "toggleKeep_payload v st = Some s1"
  shows "six_dice s1"
proof (cases v)
  case (Index i)
  then have "i < 6" using assms(3) by (simp add: ToNumber_def js_greater_eq_def)
  then have "six_dice (toggleKeep i st)" using assms(1) by (rule six_dice_toggleKeep[rotated])
  then show ?thesis using assms(4) Index by (simp add: toggleKeep_payload_Index)
next
  case LengthName
  then show ?thesis using assms(2) by simp
next
  case (InheritedName s)
  then show ?thesis
    using assms(1,4)
    by (auto simp: toggleKeep_payload_def kept_read_def kept_assign_def kept_reread_def
          some_is_overwritten_def Let_def six_dice_def split: if_splits)
next
  case (Other n)
  then show ?thesis
    using assms(1,4)
    by (auto simp: toggleKeep_payload_def kept_read_def kept_assign_def kept_reread_def
          some_is_overwritten_def Let_def six_dice_def split: if_splits)
qed

lemma all_six_keepDice_payload:
  assumes "v \<noteq> LengthName" "all_six w"
  shows "all_six (keepDice_payload sid v w)"
proof (cases "socketData w sid")
  case None
  then show ?thesis using assms by (simp add: keepDice_payload_def)
next
  case (Some roomId)
  note sd = this
  show ?thesis
  proof (cases "getGameState roomId w")
    case None
    then show ?thesis using assms sd by (simp add: keepDice_payload_def notFound_def all_six_emit)
  next
    case (Some st)
    then have six: "six_dice st" using assms(2) all_six_get by blast
    show ?thesis
    proof (cases "toggleKeep_payload v st")
      case None
      then show ?thesis using assms sd Some by (simp add: keepDice_payload_def)
    next
      case (Some s1)
      show ?thesis
      proof (cases "js_less (ToNumber v) 0 \<or> js_greater_eq (ToNumber v) 6")
        case True
        then show ?thesis
          using assms sd \<open>getGameState roomId w = Some st\<close> by (simp add: keepDice_payload_def)
      next
        case False
        have "six_dice s1" using six assms(1) False Some by (rule six_dice_toggleKeep_payload)
        then have "all_six (saveGameState roomId s1 w)" using assms(2) by (intro all_six_save)
        then show ?thesis
          using assms sd \<open>getGameState roomId w = Some st\<close> Some
          by (simp add: keepDice_payload_def all_six_emit)
      qed
    qed
  qed
qed

lemma rolled_world_reachable: "reachable rolled_world"
  unfolding rolled_world_def
  by (intro reachable.intros) simp

lemma truncated_world_reachable: "reachable truncated_world"
  unfolding truncated_world_def by (intro reachable.intros rolled_world_reachable)

lemma joined_A_store:
  "store (joinRoom ''A'' ''r'' (Some ''Ann'') (createRoom ''r'' world0)) ''r''
     = Some (createInitialGameState\<lparr>
         players := [(''A'', \<lparr> idP = ''A'', nameP = ''Ann'' \<rparr>)],
         currentPlayer := Some ''A'',
         scores := [(''A'', 0)],
         roundScores := [(''A'', 0)],
         playerOrder := [''A''] \<rparr>)"
proof -
  have "store (createRoom ''r'' world0) ''r'' = Some createInitialGameState"
    by (simp add: createRoom_def store_saveGameState)
  then have "store (joinRoom ''A'' ''r'' (Some ''Ann'') (createRoom ''r'' world0)) ''r''
               = Some (join_state ''A'' (Some ''Ann'') createInitialGameState)"
    by (rule joinRoom_store_found)
  then show ?thesis by (simp only: join_A)
qed

lemma joined_A_socket:
  "socketData (joinRoom ''A'' ''r'' (Some ''Ann'') (createRoom ''r'' world0)) ''A'' = Some ''r''"
  by (simp add: socketData_joinRoom)


lemma rolling_store:
  "store (rollDice ''A'' (joinRoom ''A'' ''r'' (Some ''Ann'') (createRoom ''r'' world0))) ''r''
     = Some (alone_A\<lparr> isRolling := True \<rparr>)"
  using joined_A_store joined_A_socket
  by (simp add: rollDice_def getGameState_def Let_def store_emit store_saveGameState
        alone_A_def createInitialGameState_def)

lemma rolling_socket:
  "socketData (rollDice ''A'' (joinRoom ''A'' ''r'' (Some ''Ann'') (createRoom ''r'' world0))) ''A''
     = Some ''r''"
  using joined_A_store joined_A_socket
  by (simp add: rollDice_def getGameState_def Let_def socketData_emit socketData_saveGameState
        alone_A_def createInitialGameState_def)

lemma rolled_dice:
  "fold (roll_step (\<lambda>i. 1 / 2) [False, False, False, False, False, False]) [0..<6]
     [0, 0, 0, 0, 0, 0] = [4, 4, 4, 4, 4, 4]"
  by (simp add: upt_rec roll_step_apply kept_at_def js_set_def)

lemma rolled_world_store:
  "store rolled_world ''r''
     = Some (alone_A\<lparr> dice := [4, 4, 4, 4, 4, 4], rollCount := 1, mustKeepDie := True \<rparr>)"
  unfolding rolled_world_def
  using rolling_store
  by (simp add: rollDice_timeout_def getGameState_def Let_def store_emit store_saveGameState
        alone_A_def createInitialGameState_def rolled_dice)

lemma socketData_rollDice_timeout:
  "socketData (rollDice_timeout sid roomId rnd w) = socketData w"
  by (simp add: rollDice_timeout_def Let_def socketData_emit socketData_saveGameState
        split: option.splits)

lemma rolled_world_socket: "socketData rolled_world ''A'' = Some ''r''"
  unfolding rolled_world_def by (simp add: socketData_rollDice_timeout rolling_socket)

subsection \<open>Stored scores are never negative\<close>

lemma score_fold_nonneg:
  "\<forall>i\<in>set js. i < length ds \<Longrightarrow> \<forall>d\<in>set ds. 0 \<le> d \<Longrightarrow> 0 \<le> acc \<Longrightarrow>
   0 \<le> fold (score_step ds ks) js acc"
proof (induction js arbitrary: acc)
  case Nil
  then show ?case by simp
next
  case (Cons j js)
  then have "ds ! j \<in> set ds" by simp
  with Cons.prems have "0 \<le> ds ! j" by blast
  with Cons.prems have "0 \<le> score_step ds ks j acc" by (simp add: score_step_def)
  with Cons show ?case by simp
qed

lemma endTurn_turnScore_nonneg:
  "length ds = 6 \<Longrightarrow> \<forall>d\<in>set ds. 0 \<le> d \<Longrightarrow> 0 \<le> endTurn_turnScore ds ks"
  by (simp add: endTurn_turnScore_def Let_def score_fold_nonneg)

lemma update_nonneg:
  "\<forall>e\<in>set al. 0 \<le> snd e \<Longrightarrow> (0::int) \<le> v \<Longrightarrow> \<forall>e\<in>set (AList.update k v al). 0 \<le> snd e"
  by (induction al) auto

lemma delete_nonneg:
  "\<forall>e\<in>set al. (0::int) \<le> snd e \<Longrightarrow> \<forall>e\<in>set (AList.delete k al). 0 \<le> snd e"
  by (induction al) auto

lemma plausible_initial: "plausible createInitialGameState"
  by (simp add: plausible_def createInitialGameState_def)

lemma plausible_resetTurnState:
  "plausible st \<Longrightarrow> plausible (resetTurnState st)"
  by (simp add: plausible_def resetTurnState_def)

lemma plausible_reset_current:
  "plausible st \<Longrightarrow> plausible (resetTurnState (st\<lparr> currentPlayer := c \<rparr>))"
  by (simp add: plausible_def resetTurnState_def)

lemma plausible_join_state:
  assumes "plausible st"
  shows "plausible (join_state sid playerName st)"
proof -
  have u: "\<forall>e\<in>set (AList.update sid 0 (roundScores st)). 0 \<le> snd e"
    using assms by (intro update_nonneg) (simp_all add: plausible_def)
  have d: "distinct (map fst (AList.update sid 0 (roundScores st)))"
    using assms by (simp add: plausible_def distinct_update)
  show ?thesis
    using assms u d by (simp add: plausible_def join_state_def Let_def resetTurnState_def)
qed

lemma plausible_startNewRound_state: "plausible st \<Longrightarrow> plausible (startNewRound_state st)"
  by (simp add: startNewRound_state_def Let_def plausible_def resetTurnState_def)

lemma plausible_endTurn_record:
  assumes "plausible st"
  shows "plausible (endTurn_record sid st)"
proof -
  have t: "0 \<le> endTurn_turnScore (dice st) (keptDice st)"
    using assms by (intro endTurn_turnScore_nonneg) (simp_all add: plausible_def)
  have u: "\<forall>e\<in>set (AList.update sid (endTurn_turnScore (dice st) (keptDice st))
                      (roundScores st)). 0 \<le> snd e"
    using assms t by (intro update_nonneg) (simp_all add: plausible_def)
  have d: "distinct (map fst (AList.update sid (endTurn_turnScore (dice st) (keptDice st))
                      (roundScores st)))"
    using assms by (simp add: plausible_def distinct_update)
  show ?thesis
    using assms u d by (simp add: plausible_def endTurn_record_def Let_def)
qed

lemma plausible_advanceTurn: "plausible st \<Longrightarrow> plausible (advanceTurn st)"
  by (simp add: plausible_def advanceTurn_def Let_def resetTurnState_def)

lemma plausible_endRound_state:
  "plausible st \<Longrightarrow> plausible (st\<lparr> roundEnded := True, roundWinner := x \<rparr>)"
  by (simp add: plausible_def)

lemma plausible_rolling: "plausible st \<Longrightarrow> plausible (st\<lparr> isRolling := True \<rparr>)"
  by (simp add: plausible_def)

lemma plausible_roll:
  assumes "plausible st" "\<forall>i<6. 0 \<le> rnd i \<and> rnd i < 1"
  shows "plausible (st\<lparr> dice := fold (roll_step rnd (keptDice st)) [0..<6] (dice st),
                  rollCount := rollCount st + 1, mustKeepDie := True, isRolling := False \<rparr>)"
proof -
  let ?ds = "fold (roll_step rnd (keptDice st)) [0..<6] (dice st)"
  have len: "length (dice st) = 6" and nn: "\<forall>d\<in>set (dice st). 0 \<le> d"
    using assms(1) by (simp_all add: plausible_def)
  have f: "length ?ds = length (dice st) \<and>
      (\<forall>i<length (dice st). ?ds ! i
        = (if i < 6 \<and> \<not> kept_at (keptDice st) i then \<lfloor>rnd i * 6\<rfloor> + 1 else dice st ! i))"
    using len by (intro roll_fold) simp
  have "\<forall>i<length ?ds. 0 \<le> ?ds ! i"
  proof (intro allI impI)
    fix i assume "i < length ?ds"
    then have i: "i < 6" using f len by simp
    then have "0 \<le> rnd i \<and> rnd i < 1" using assms(2) by blast
    then have "1 \<le> \<lfloor>rnd i * 6\<rfloor> + 1" using floor_die by blast
    moreover have "0 \<le> dice st ! i" using nn i len by simp
    ultimately show "0 \<le> ?ds ! i" using f i len by simp
  qed
  then have "\<forall>d\<in>set ?ds. 0 \<le> d" by (auto simp: in_set_conv_nth)
  then show ?thesis using assms(1) f by (simp add: plausible_def)
qed

lemma length_js_set: "length (js_set d xs i v) = max (length xs) (Suc i)"
  by (auto simp: js_set_def)

lemma plausible_toggleKeep_payload:
  assumes "plausible st"
    "\<not> (js_less (ToNumber v) 0 \<or> js_greater_eq (ToNumber v) 6)"
    "toggleKeep_payload v st = Some s1"
  shows "plausible s1"
proof -
  have k: "length (kept_assign (keptDice st) v b) \<le> 6" for b
  proof (cases v)
    case (Index i)
    then have "i < 6" using assms(2) by (simp add: ToNumber_def js_greater_eq_def)
    then show ?thesis using assms(1) Index
      by (simp add: kept_assign_def length_js_set plausible_def)
  next
    case LengthName
    then show ?thesis by (simp add: kept_assign_def set_length_def min_def)
  next
    case (InheritedName s)
    then show ?thesis using assms(1) by (simp add: kept_assign_def plausible_def)
  next
    case (Other n)
    then show ?thesis using assms(1) by (simp add: kept_assign_def plausible_def)
  qed
  have "plausible (st\<lparr> keptDice := kept_assign (keptDice st) v b \<rparr>)" for b
    using assms(1) k[of b] by (simp add: plausible_def)
  moreover have "plausible (s\<lparr> mustKeepDie := m \<rparr>)" if "plausible s" for s m
    using that by (simp add: plausible_def)
  ultimately show ?thesis
    using assms(3) by (auto simp: toggleKeep_payload_def Let_def split: if_splits)
qed

lemma all_plausible_save:
  "all_plausible w \<Longrightarrow> plausible st \<Longrightarrow> all_plausible (saveGameState roomId st w)"
  by (simp add: all_plausible_def store_saveGameState)

lemma all_plausible_emit: "all_plausible (emit e w) = all_plausible w"
  by (simp add: all_plausible_def store_emit)

lemma all_plausible_delete: "all_plausible w \<Longrightarrow> all_plausible (deleteGameState roomId w)"
  by (simp add: all_plausible_def deleteGameState_def)

lemma all_plausible_get:
  "all_plausible w \<Longrightarrow> getGameState roomId w = Some st \<Longrightarrow> plausible st"
  by (simp add: all_plausible_def getGameState_def)

lemma all_plausible_world0: "all_plausible world0"
  by (simp add: all_plausible_def world0_def)

lemma all_plausible_createRoom: "all_plausible w \<Longrightarrow> all_plausible (createRoom roomId w)"
  by (simp add: createRoom_def all_plausible_save plausible_initial)

lemma all_plausible_joinRoom:
  assumes "all_plausible w"
  shows "all_plausible (joinRoom sid roomId playerName w)"
proof (cases "retry_fetch MAX_RETRIES roomId w (getGameState roomId w)")
  case None
  have "all_plausible (saveGameState roomId (join_state sid playerName createInitialGameState)
          (emit (SystemMessage roomId
                   ''Room data was recovered after an issue. Some game state may have been reset.'')
             (saveGameState roomId createInitialGameState w)))"
    using assms
    by (intro all_plausible_save plausible_join_state plausible_initial)
       (simp add: all_plausible_emit all_plausible_save plausible_initial)
  then show ?thesis
    using None by (simp add: joinRoom_def Let_def all_plausible_def store_emit)
next
  case (Some s)
  then have "getGameState roomId w = Some s" using retry_fetch_result by blast
  then have "plausible s" using assms all_plausible_get by blast
  then have "all_plausible (saveGameState roomId (join_state sid playerName s) w)"
    using assms by (intro all_plausible_save plausible_join_state)
  then show ?thesis
    using Some by (simp add: joinRoom_def Let_def all_plausible_def store_emit)
qed

lemma all_plausible_rollDice:
  assumes "all_plausible w"
  shows "all_plausible (rollDice sid w)"
proof -
  have k: "\<And>roomId st. getGameState roomId w = Some st \<Longrightarrow>
      all_plausible (saveGameState roomId (st\<lparr> isRolling := True \<rparr>) w)"
    using assms by (intro all_plausible_save plausible_rolling) (auto dest: all_plausible_get)
  show ?thesis
    using assms k
    by (auto simp: rollDice_def notFound_def all_plausible_emit Let_def all_plausible_def
          store_emit split: option.splits)
qed

lemma all_plausible_rollDice_timeout:
  assumes "all_plausible w" "\<forall>i<6. 0 \<le> rnd i \<and> rnd i < 1"
  shows "all_plausible (rollDice_timeout sid roomId rnd w)"
proof (cases "getGameState roomId w")
  case None
  then show ?thesis using assms(1) by (simp add: rollDice_timeout_def)
next
  case (Some st)
  then have "plausible st" using assms(1) all_plausible_get by blast
  then have "plausible (st\<lparr> dice := fold (roll_step rnd (keptDice st)) [0..<6] (dice st),
                  rollCount := rollCount st + 1, mustKeepDie := True, isRolling := False \<rparr>)"
    using assms(2) by (rule plausible_roll)
  then show ?thesis
    using assms(1) Some
    by (simp add: rollDice_timeout_def Let_def all_plausible_emit all_plausible_save)
qed

lemma all_plausible_keepDice_payload:
  assumes "all_plausible w"
  shows "all_plausible (keepDice_payload sid v w)"
proof (cases "socketData w sid")
  case None
  then show ?thesis using assms by (simp add: keepDice_payload_def)
next
  case (Some roomId)
  note sd = this
  show ?thesis
  proof (cases "getGameState roomId w")
    case None
    then show ?thesis
      using assms sd by (simp add: keepDice_payload_def notFound_def all_plausible_emit)
  next
    case (Some st)
    then have p: "plausible st" using assms all_plausible_get by blast
    show ?thesis
    proof (cases "toggleKeep_payload v st")
      case None
      then show ?thesis using assms sd Some by (simp add: keepDice_payload_def)
    next
      case (Some s1)
      show ?thesis
      proof (cases "js_less (ToNumber v) 0 \<or> js_greater_eq (ToNumber v) 6")
        case True
        then show ?thesis
          using assms sd \<open>getGameState roomId w = Some st\<close> by (simp add: keepDice_payload_def)
      next
        case False
        have "plausible s1" using p False Some by (rule plausible_toggleKeep_payload)
        then have "all_plausible (saveGameState roomId s1 w)"
          using assms by (intro all_plausible_save)
        then show ?thesis
          using assms sd \<open>getGameState roomId w = Some st\<close> Some
          by (simp add: keepDice_payload_def all_plausible_emit)
      qed
    qed
  qed
qed

lemma all_plausible_endRound:
  "all_plausible w \<Longrightarrow> plausible st \<Longrightarrow> all_plausible (endRound roomId st w)"
  by (simp add: endRound_def Let_def all_plausible_emit all_plausible_save
        plausible_endRound_state)

lemma all_plausible_endTurn: "all_plausible w \<Longrightarrow> all_plausible (endTurn sid w)"
  by (auto simp: endTurn_def notFound_def Let_def all_plausible_emit
           intro!: all_plausible_endRound plausible_endTurn_record dest: all_plausible_get
           split: option.splits)

lemma all_plausible_endTurn_earlier:
  "all_plausible w \<Longrightarrow> all_plausible (endTurn_earlier sid w)"
  by (auto simp: endTurn_earlier_def notFound_def Let_def all_plausible_emit
           intro!: all_plausible_endRound all_plausible_save plausible_advanceTurn
                   plausible_endTurn_record
           dest: all_plausible_get split: option.splits)

lemma all_plausible_startNewRound:
  "all_plausible w \<Longrightarrow> all_plausible (startNewRound roomId w)"
  by (auto simp: startNewRound_def intro!: all_plausible_save plausible_startNewRound_state
           dest: all_plausible_get split: option.splits)

lemma all_plausible_playAgain: "all_plausible w \<Longrightarrow> all_plausible (playAgain sid w)"
  by (auto simp: playAgain_def notFound_def Let_def all_plausible_emit
        all_plausible_startNewRound split: option.splits)

lemma plausible_disconnect_state:
  assumes "plausible st"
  shows "plausible
     (let s1 = st\<lparr> players := ps, scores := sc,
                    roundScores := AList.delete sid (roundScores st), playerOrder := po,
                    playersPlayedThisRound := pp \<rparr>
      in if c then (let nextPlayer = getNextPlayer s1
                    in if truthy nextPlayer
                       then resetTurnState (s1\<lparr> currentPlayer := nextPlayer \<rparr>)
                       else s1\<lparr> currentPlayer := None \<rparr>)
         else s1)"
proof -
  have u: "\<forall>e\<in>set (AList.delete sid (roundScores st)). 0 \<le> snd e"
    using assms by (intro delete_nonneg) (simp add: plausible_def)
  have "plausible (st\<lparr> players := ps, scores := sc,
                    roundScores := AList.delete sid (roundScores st), playerOrder := po,
                    playersPlayedThisRound := pp \<rparr>)"
    using assms u by (simp add: plausible_def distinct_delete)
  moreover have "plausible (s\<lparr> currentPlayer := x \<rparr>)" if "plausible s" for s x
    using that by (simp add: plausible_def)
  ultimately show ?thesis
    by (simp add: Let_def plausible_reset_current)
qed

lemma all_plausible_disconnect:
  assumes "all_plausible w"
  shows "all_plausible (disconnect sid w)"
proof (cases "socketData w sid")
  case None
  then show ?thesis using assms by (simp add: disconnect_def)
next
  case (Some roomId)
  show ?thesis
  proof (cases "getGameState roomId w")
    case None
    then show ?thesis using assms Some by (simp add: disconnect_def)
  next
    case (Some st)
    then have "plausible st" using assms all_plausible_get by blast
    from plausible_disconnect_state[OF this]
    show ?thesis
      using assms \<open>socketData w sid = Some roomId\<close> Some
      unfolding disconnect_def
      by (simp add: all_plausible_emit all_plausible_save all_plausible_delete Let_def)
  qed
qed

lemma reachable_plausible:
  "reachable w \<Longrightarrow> store w roomId = Some st \<Longrightarrow> plausible st"
proof -
  assume r: "reachable w" and s: "store w roomId = Some st"
  from r have "all_plausible w"
    by (induction rule: reachable.induct)
       (simp_all add: all_plausible_world0 all_plausible_createRoom all_plausible_joinRoom
          all_plausible_rollDice all_plausible_rollDice_timeout all_plausible_keepDice_payload
          all_plausible_endTurn all_plausible_endTurn_earlier all_plausible_playAgain
          all_plausible_disconnect)
  with s show ?thesis by (simp add: all_plausible_def)
qed

lemma reachable_roundScores:
  "reachable w \<Longrightarrow> store w roomId = Some st \<Longrightarrow>
   distinct (map fst (roundScores st)) \<and> (\<forall>e\<in>set (roundScores st). 0 \<le> snd e)"
  using reachable_plausible[of w roomId st] by (simp add: plausible_def)

section \<open>The claims\<close>

subsection \<open>C3: determineRoundWinner\<close>

text \<open>
  C3: for every \<open>roundScores\<close> mapping the server can hold (distinct player ids, and
  scores that are not negative: a score is written as \<open>0\<close> by \<open>joinRoom\<close> and as a sum of
  dice by \<open>endTurn\<close>, see \<open>reachable_roundScores\<close>), \<open>determineRoundWinner\<close> returns the
  player holding the strict unique maximum, and \<open>null\<close> whenever two different players
  share the highest score; \<open>{A:10, B:10}\<close> gives \<open>null\<close> and \<open>{A:12, B:7}\<close> gives \<open>A\<close>.
\<close>

theorem determineRoundWinner_spec:
  "(distinct (map fst (roundScores st)) \<and> (\<forall>e\<in>set (roundScores st). 0 \<le> snd e) \<longrightarrow>
      ((p, s) \<in> set (roundScores st) \<and>
       (\<forall>e\<in>set (roundScores st). fst e \<noteq> p \<longrightarrow> snd e < s)
         \<longrightarrow> determineRoundWinner st = Some p) \<and>
      ((p, s) \<in> set (roundScores st) \<and> (q, s) \<in> set (roundScores st) \<and> p \<noteq> q \<and>
       (\<forall>e\<in>set (roundScores st). snd e \<le> s)
         \<longrightarrow> determineRoundWinner st = None)) \<and>
   (roundScores st = [(''A'', 10), (''B'', 10)] \<longrightarrow> determineRoundWinner st = None) \<and>
   (roundScores st = [(''A'', 12), (''B'', 7)] \<longrightarrow> determineRoundWinner st = Some ''A'')"
proof (intro conjI impI)
  assume d: "distinct (map fst (roundScores st)) \<and> (\<forall>e\<in>set (roundScores st). 0 \<le> snd e)"
    and a: "(p, s) \<in> set (roundScores st) \<and>
       (\<forall>e\<in>set (roundScores st). fst e \<noteq> p \<longrightarrow> snd e < s)"
  from d a have "0 \<le> s" by force
  then have "- 1 \<le> s" by simp
  with d a determineRoundWinner_cases[of st p s q]
  show "determineRoundWinner st = Some p" by blast
next
  assume "(p, s) \<in> set (roundScores st) \<and> (q, s) \<in> set (roundScores st) \<and> p \<noteq> q \<and>
       (\<forall>e\<in>set (roundScores st). snd e \<le> s)"
  with determineRoundWinner_cases[of st p s q]
  show "determineRoundWinner st = None" by blast
next
  assume "roundScores st = [(''A'', 10), (''B'', 10)]"
  with determineRoundWinner_cases[of st p s q]
  show "determineRoundWinner st = None" by blast
next
  assume "roundScores st = [(''A'', 12), (''B'', 7)]"
  with determineRoundWinner_cases[of st p s q]
  show "determineRoundWinner st = Some ''A''" by blast
qed

theorem determineRoundWinner_spec_witness:
  "determineRoundWinner (createInitialGameState\<lparr> roundScores := [(''A'', 12), (''B'', 7)] \<rparr>)
     = Some ''A'' \<and>
   determineRoundWinner (createInitialGameState\<lparr> roundScores := [(''A'', 10), (''B'', 10)] \<rparr>)
     = None"
  using determineRoundWinner_spec
          [where st = "createInitialGameState\<lparr> roundScores := [(''A'', 12), (''B'', 7)] \<rparr>"
             and p = "''A''" and s = 12]
        determineRoundWinner_spec
          [where st = "createInitialGameState\<lparr> roundScores := [(''A'', 10), (''B'', 10)] \<rparr>"
             and p = "''A''" and s = 10 and q = "''B''"]
  by simp

subsection \<open>C5: getNextPlayer\<close>




subsection \<open>C6: checkRoundEnd\<close>

text \<open>
  C6: \<open>checkRoundEnd\<close> is true iff the number of distinct ids in
  \<open>playersPlayedThisRound\<close> is at least the number of keys of \<open>players\<close>. Consequently a
  join in the middle of a round makes it false: if the players who played are among the
  current players (so also when all of them have played) and a new player joins, the
  state stored by \<open>joinRoom\<close> has \<open>checkRoundEnd\<close> false.
\<close>

theorem checkRoundEnd_spec:
  "(checkRoundEnd st \<longleftrightarrow>
      card (set (playersPlayedThisRound st)) \<ge> length (Object_keys (players st))) \<and>
   (store w roomId = Some st \<and> distinct (Object_keys (players st)) \<and>
    set (playersPlayedThisRound st) \<subseteq> set (Object_keys (players st)) \<and>
    sid \<notin> set (Object_keys (players st))
      \<longrightarrow> (\<exists>st'. store (joinRoom sid roomId playerName w) roomId = Some st' \<and>
                 \<not> checkRoundEnd st'))"
proof (intro conjI impI)
  show "checkRoundEnd st \<longleftrightarrow>
      card (set (playersPlayedThisRound st)) \<ge> length (Object_keys (players st))"
    by (simp add: checkRoundEnd_def length_remdups_card_conv)
next
  assume a: "store w roomId = Some st \<and> distinct (Object_keys (players st)) \<and>
    set (playersPlayedThisRound st) \<subseteq> set (Object_keys (players st)) \<and>
    sid \<notin> set (Object_keys (players st))"
  let ?st' = "join_state sid playerName st"
  have "card (set (playersPlayedThisRound st)) \<le> card (set (Object_keys (players st)))"
    using a by (intro card_mono) auto
  also have "\<dots> = length (Object_keys (players st))"
    using a by (simp add: distinct_card)
  finally have le: "card (set (playersPlayedThisRound st)) \<le> length (players st)"
    by (simp add: Object_keys_def)
  have "map fst (players ?st') = map fst (players st) @ [sid]"
    using a by (simp add: join_state_players update_keys Object_keys_def)
  then have "length (map fst (players ?st')) = Suc (length (players st))" by simp
  then have "length (players ?st') = Suc (length (players st))" by simp
  then have "\<not> checkRoundEnd ?st'"
    using le by (simp add: checkRoundEnd_def length_remdups_card_conv join_state_played Object_keys_def)
  moreover have "store (joinRoom sid roomId playerName w) roomId = Some ?st'"
    using a by (simp add: joinRoom_store_found)
  ultimately show "\<exists>st'. store (joinRoom sid roomId playerName w) roomId = Some st' \<and>
                 \<not> checkRoundEnd st'" by blast
qed

theorem checkRoundEnd_spec_witness:
  "checkRoundEnd (two_players\<lparr> playersPlayedThisRound := [''A'', ''B''] \<rparr>) \<and>
   (\<exists>st'. store (joinRoom ''C'' ''r'' (Some ''Cy'')
                   (one_room (two_players\<lparr> playersPlayedThisRound := [''A'', ''B''] \<rparr>))) ''r''
             = Some st' \<and> \<not> checkRoundEnd st')"
  using checkRoundEnd_spec
          [where st = "two_players\<lparr> playersPlayedThisRound := [''A'', ''B''] \<rparr>"
             and w = "one_room (two_players\<lparr> playersPlayedThisRound := [''A'', ''B''] \<rparr>)"
             and roomId = "''r''" and sid = "''C''" and playerName = "Some ''Cy''"]
  by (simp add: one_room_def two_players_def createInitialGameState_def Object_keys_def)

subsection \<open>C10: startNewRound and roundWinner\<close>

text \<open>
  C10: \<open>startNewRound\<close> leaves \<open>roundWinner\<close> as it was. The state it stores has
  \<open>roundEnded\<close> false, \<open>playersPlayedThisRound\<close> and \<open>roundScores\<close> empty, every entry of
  \<open>scores\<close> zero, and the \<open>roundWinner\<close> of the state it read.
\<close>

theorem startNewRound_keeps_roundWinner:
  "store w roomId = Some st \<Longrightarrow>
   (\<exists>st'. store (startNewRound roomId w) roomId = Some st' \<and>
          roundWinner st' = roundWinner st \<and>
          \<not> roundEnded st' \<and>
          playersPlayedThisRound st' = [] \<and>
          roundScores st' = [] \<and>
          map fst (scores st') = map fst (scores st) \<and>
          (\<forall>e\<in>set (scores st'). snd e = 0))"
  by (auto simp: startNewRound_def getGameState_def store_saveGameState startNewRound_state_frame)

theorem startNewRound_keeps_roundWinner_witness:
  "\<exists>st'. store (startNewRound ''r''
                  (one_room (two_players\<lparr> roundEnded := True, roundWinner := Some ''B'' \<rparr>))) ''r''
            = Some st' \<and>
         roundWinner st' = Some ''B'' \<and>
         \<not> roundEnded st' \<and>
         playersPlayedThisRound st' = [] \<and>
         roundScores st' = [] \<and>
         map fst (scores st') = [''A'', ''B''] \<and>
         (\<forall>e\<in>set (scores st'). snd e = 0)"
  using startNewRound_keeps_roundWinner
          [where w = "one_room (two_players\<lparr> roundEnded := True, roundWinner := Some ''B'' \<rparr>)"
             and roomId = "''r''"
             and st = "two_players\<lparr> roundEnded := True, roundWinner := Some ''B'' \<rparr>"]
  by (simp add: one_room_def two_players_def createInitialGameState_def)

subsection \<open>C2: the turn score\<close>

text \<open>
  C2 says that a kept 1 or 4 beyond the first of each counts toward the score, which is
  what the client's preview \<open>calculateTurnScore\<close> computes. The server's \<open>endTurn\<close> leaves
  out every kept 1 and 4: with the dice \<open>1 4 1 2 3 5\<close> and the first four kept, the
  server scores \<open>2\<close> where the claim and the preview (\<open>calculateTurnScore_extra_one\<close>)
  give \<open>3\<close>.
\<close>

theorem endTurn_score_extra_one_differs:
  "endTurn_turnScore [1, 4, 1, 2, 3, 5] [True, True, True, True, False, False] = 2 \<and>
   map_of (roundScores (endTurn_record ''A''
             (two_players\<lparr> dice := [1, 4, 1, 2, 3, 5], rollCount := 3,
                            keptDice := [True, True, True, True, False, False] \<rparr>))) ''A''
     = Some 2"
proof -
  have s: "endTurn_turnScore [1, 4, 1, 2, 3, 5] [True, True, True, True, False, False] = 2"
    by (simp add: endTurn_turnScore_def hasKept_def score_step_def kept_at_def upt_rec)
  then show ?thesis
    by (simp add: endTurn_record_def Let_def two_players_def createInitialGameState_def)
qed

subsection \<open>C7: rollDice out of turn, before keeping, or with nothing left to roll\<close>

text \<open>
  C7: a \<open>rollDice\<close> request from a socket that is not \<open>currentPlayer\<close>, or while
  \<open>mustKeepDie\<close> is set, or with every die kept after the first roll, is ignored: the
  store, the emitted messages and the scheduled completions are what they were.
\<close>

theorem rollDice_ignored:
  "socketData w sid = Some roomId \<Longrightarrow> store w roomId = Some st \<Longrightarrow>
   currentPlayer st \<noteq> Some sid \<or> mustKeepDie st \<or>
     ((\<forall>kept\<in>set (keptDice st). kept) \<and> rollCount st > 0) \<Longrightarrow>
   rollDice sid w = w"
  by (auto simp: rollDice_def getGameState_def list_ex_iff Let_def)

theorem rollDice_ignored_witness:
  "rollDice ''B'' (one_room two_players) = one_room two_players \<and>
   rollDice ''A'' (one_room (two_players\<lparr> dice := [1, 2, 3, 4, 5, 6], rollCount := 1,
                                          mustKeepDie := True \<rparr>))
     = one_room (two_players\<lparr> dice := [1, 2, 3, 4, 5, 6], rollCount := 1, mustKeepDie := True \<rparr>) \<and>
   rollDice ''A'' (one_room (two_players\<lparr> dice := [1, 2, 3, 4, 5, 6], rollCount := 1,
                                          keptDice := [True, True, True, True, True, True] \<rparr>))
     = one_room (two_players\<lparr> dice := [1, 2, 3, 4, 5, 6], rollCount := 1,
                              keptDice := [True, True, True, True, True, True] \<rparr>)"
  using rollDice_ignored
          [where w = "one_room two_players" and sid = "''B''" and roomId = "''r''"
             and st = two_players]
        rollDice_ignored
          [where w = "one_room (two_players\<lparr> dice := [1, 2, 3, 4, 5, 6], rollCount := 1,
                                              mustKeepDie := True \<rparr>)"
             and sid = "''A''" and roomId = "''r''"
             and st = "two_players\<lparr> dice := [1, 2, 3, 4, 5, 6], rollCount := 1,
                                    mustKeepDie := True \<rparr>"]
        rollDice_ignored
          [where w = "one_room (two_players\<lparr> dice := [1, 2, 3, 4, 5, 6], rollCount := 1,
                                          keptDice := [True, True, True, True, True, True] \<rparr>)"
             and sid = "''A''" and roomId = "''r''"
             and st = "two_players\<lparr> dice := [1, 2, 3, 4, 5, 6], rollCount := 1,
                                          keptDice := [True, True, True, True, True, True] \<rparr>"]
  by (simp add: one_room_def two_players_def createInitialGameState_def)

subsection \<open>C8: the delayed roll completion\<close>

text \<open>
  C8: when the completion runs and the state it fetches has another \<open>currentPlayer\<close> or
  is not rolling, nothing is written or emitted. Otherwise, with \<open>Math.random()\<close> in
  \<open>[0, 1)\<close>, the state it saves and broadcasts differs from the fetched one in that every
  die not kept has a value in \<open>[1, 6]\<close> (kept dice keep theirs), \<open>rollCount\<close> is one more,
  \<open>mustKeepDie\<close> is true and \<open>isRolling\<close> is false.
\<close>

theorem rollDice_timeout_spec:
  "store w roomId = Some cs \<Longrightarrow>
   (currentPlayer cs \<noteq> Some sid \<or> \<not> isRolling cs \<longrightarrow> rollDice_timeout sid roomId rnd w = w) \<and>
   (currentPlayer cs = Some sid \<and> isRolling cs \<and>
    length (dice cs) = 6 \<and> length (keptDice cs) = 6 \<and> (\<forall>i<6. 0 \<le> rnd i \<and> rnd i < 1)
      \<longrightarrow> (\<exists>ds. length ds = 6 \<and>
               (\<forall>i<6. \<not> keptDice cs ! i \<longrightarrow> 1 \<le> ds ! i \<and> ds ! i \<le> 6) \<and>
               (\<forall>i<6. keptDice cs ! i \<longrightarrow> ds ! i = dice cs ! i) \<and>
               store (rollDice_timeout sid roomId rnd w) roomId
                 = Some (cs\<lparr> dice := ds, rollCount := rollCount cs + 1,
                             mustKeepDie := True, isRolling := False \<rparr>) \<and>
               emitted (rollDice_timeout sid roomId rnd w)
                 = emitted w @ [GameStateUpdate roomId
                     (cs\<lparr> dice := ds, rollCount := rollCount cs + 1,
                          mustKeepDie := True, isRolling := False \<rparr>)]))"
proof (intro conjI impI)
  assume "store w roomId = Some cs" "currentPlayer cs \<noteq> Some sid \<or> \<not> isRolling cs"
  then show "rollDice_timeout sid roomId rnd w = w"
    by (auto simp: rollDice_timeout_def getGameState_def)
next
  assume s: "store w roomId = Some cs"
    and a: "currentPlayer cs = Some sid \<and> isRolling cs \<and>
    length (dice cs) = 6 \<and> length (keptDice cs) = 6 \<and> (\<forall>i<6. 0 \<le> rnd i \<and> rnd i < 1)"
  let ?ds = "fold (roll_step rnd (keptDice cs)) [0..<6] (dice cs)"
  let ?cs' = "cs\<lparr> dice := ?ds, rollCount := rollCount cs + 1,
                   mustKeepDie := True, isRolling := False \<rparr>"
  have f: "length ?ds = length (dice cs) \<and>
      (\<forall>i<length (dice cs). ?ds ! i
        = (if i < 6 \<and> \<not> kept_at (keptDice cs) i then \<lfloor>rnd i * 6\<rfloor> + 1 else dice cs ! i))"
    using a by (intro roll_fold) simp
  have len: "length ?ds = 6" using f a by simp
  have nth: "\<And>i. i < 6 \<Longrightarrow> ?ds ! i = (if \<not> keptDice cs ! i then \<lfloor>rnd i * 6\<rfloor> + 1 else dice cs ! i)"
    using f a by (simp add: kept_at_def)
  have rolled: "\<forall>i<6. \<not> keptDice cs ! i \<longrightarrow> 1 \<le> ?ds ! i \<and> ?ds ! i \<le> 6"
    using nth a floor_die by simp
  have kept: "\<forall>i<6. keptDice cs ! i \<longrightarrow> ?ds ! i = dice cs ! i"
    using nth by simp
  have st: "store (rollDice_timeout sid roomId rnd w) roomId = Some ?cs'"
    using s a by (simp add: rollDice_timeout_def getGameState_def Let_def store_emit store_saveGameState)
  have em: "emitted (rollDice_timeout sid roomId rnd w) = emitted w @ [GameStateUpdate roomId ?cs']"
    using s a by (simp add: rollDice_timeout_def getGameState_def Let_def emitted_emit emitted_saveGameState)
  from len rolled kept st em
  show "\<exists>ds. length ds = 6 \<and>
               (\<forall>i<6. \<not> keptDice cs ! i \<longrightarrow> 1 \<le> ds ! i \<and> ds ! i \<le> 6) \<and>
               (\<forall>i<6. keptDice cs ! i \<longrightarrow> ds ! i = dice cs ! i) \<and>
               store (rollDice_timeout sid roomId rnd w) roomId
                 = Some (cs\<lparr> dice := ds, rollCount := rollCount cs + 1,
                             mustKeepDie := True, isRolling := False \<rparr>) \<and>
               emitted (rollDice_timeout sid roomId rnd w)
                 = emitted w @ [GameStateUpdate roomId
                     (cs\<lparr> dice := ds, rollCount := rollCount cs + 1,
                          mustKeepDie := True, isRolling := False \<rparr>)]"
    by blast
qed

theorem rollDice_timeout_spec_witness:
  "rollDice_timeout ''B'' ''r'' (\<lambda>i. 1 / 2)
       (one_room (two_players\<lparr> dice := [3, 1, 2, 6, 5, 4], rollCount := 1, isRolling := True,
                                keptDice := [True, False, False, False, False, False] \<rparr>))
     = one_room (two_players\<lparr> dice := [3, 1, 2, 6, 5, 4], rollCount := 1, isRolling := True,
                              keptDice := [True, False, False, False, False, False] \<rparr>) \<and>
   (\<exists>ds. length ds = 6 \<and> (\<forall>i<6. 1 \<le> ds ! i \<and> ds ! i \<le> 6) \<and> ds ! 0 = 3 \<and>
      store (rollDice_timeout ''A'' ''r'' (\<lambda>i. 1 / 2)
        (one_room (two_players\<lparr> dice := [3, 1, 2, 6, 5, 4], rollCount := 1, isRolling := True,
                                 keptDice := [True, False, False, False, False, False] \<rparr>))) ''r''
        = Some (two_players\<lparr> dice := ds, rollCount := 2, isRolling := False, mustKeepDie := True,
                             keptDice := [True, False, False, False, False, False] \<rparr>))"
proof -
  let ?cs = "two_players\<lparr> dice := [3, 1, 2, 6, 5, 4], rollCount := 1, isRolling := True,
                          keptDice := [True, False, False, False, False, False] \<rparr>"
  have s: "store (one_room ?cs) ''r'' = Some ?cs" by (simp add: one_room_def)
  have h: "currentPlayer ?cs = Some ''A'' \<and> isRolling ?cs \<and>
    length (dice ?cs) = 6 \<and> length (keptDice ?cs) = 6 \<and> (\<forall>i<6. 0 \<le> (1 / 2 :: real) \<and> (1 / 2 :: real) < 1)"
    by (simp add: two_players_def createInitialGameState_def)
  have b: "currentPlayer ?cs \<noteq> Some ''B'' \<or> \<not> isRolling ?cs"
    by (simp add: two_players_def createInitialGameState_def)
  from rollDice_timeout_spec[OF s, of "''B''" "\<lambda>i. 1 / 2"] b
  have 1: "rollDice_timeout ''B'' ''r'' (\<lambda>i. 1 / 2) (one_room ?cs) = one_room ?cs" by blast
  from rollDice_timeout_spec[OF s, of "''A''" "\<lambda>i. 1 / 2"] h
  obtain ds where ds: "length ds = 6"
      "\<forall>i<6. \<not> keptDice ?cs ! i \<longrightarrow> 1 \<le> ds ! i \<and> ds ! i \<le> 6"
      "\<forall>i<6. keptDice ?cs ! i \<longrightarrow> ds ! i = dice ?cs ! i"
      "store (rollDice_timeout ''A'' ''r'' (\<lambda>i. 1 / 2) (one_room ?cs)) ''r''
                 = Some (?cs\<lparr> dice := ds, rollCount := rollCount ?cs + 1,
                             mustKeepDie := True, isRolling := False \<rparr>)"
    by blast
  from ds(3) have d0: "ds ! 0 = 3" by simp
  have "\<forall>i<6. 1 \<le> ds ! i \<and> ds ! i \<le> 6"
  proof (intro allI impI)
    fix i :: nat assume "i < 6"
    show "1 \<le> ds ! i \<and> ds ! i \<le> 6"
    proof (cases "i = 0")
      case True
      then show ?thesis using d0 by simp
    next
      case False
      then obtain j where "i = Suc j" by (cases i) auto
      with ds(2) \<open>i < 6\<close> show ?thesis by (auto simp: nth_Cons')
    qed
  qed
  with ds(1) d0 ds(4) 1 show ?thesis
    by (intro conjI exI[of _ ds]) (simp_all add: two_players_def createInitialGameState_def)
qed

subsection \<open>C4: keepDice applied twice\<close>

text \<open>
  C4, as stated: two \<open>keepDice\<close> toggles of the same die bring \<open>mustKeepDie\<close> back to its
  value before them. After a second roll with die 0 already kept, \<open>mustKeepDie\<close> is true;
  keeping die 1 clears it, and releasing die 1 leaves it cleared because die 0 is still
  kept.
\<close>

theorem keepDice_twice_mustKeepDie_counterexample:
  "mustKeepDie (two_players\<lparr> dice := [1, 2, 3, 4, 5, 6], rollCount := 2, mustKeepDie := True,
                             keptDice := [True, False, False, False, False, False] \<rparr>) = True \<and>
   map_option mustKeepDie
     (store (keepDice ''A'' 1 (keepDice ''A'' 1
        (one_room (two_players\<lparr> dice := [1, 2, 3, 4, 5, 6], rollCount := 2, mustKeepDie := True,
                                 keptDice := [True, False, False, False, False, False] \<rparr>)))) ''r'')
     = Some False"
  by (simp add: keepDice_def getGameState_def Let_def one_room_def two_players_def
        createInitialGameState_def saveGameState_def emit_def toggleKeep_def kept_at_def
        js_set_def)

text \<open>
  C4, amended: under the preconditions of \<open>keepDice\<close>, two toggles of the same die store
  the state they started from, with \<open>keptDice\<close> as it was, except that \<open>mustKeepDie\<close> is
  true exactly if no die is kept. So \<open>keptDice[index]\<close> always returns to its value, and
  \<open>mustKeepDie\<close> returns to its value exactly when that value was "no die is kept".
\<close>

theorem keepDice_twice:
  assumes "socketData w sid = Some roomId" "store w roomId = Some st"
    "currentPlayer st = Some sid" "rollCount st > 0" "0 \<le> index" "index < 6"
    "length (dice st) = 6" "length (keptDice st) = 6" "dice st ! nat index \<noteq> 0"
  shows "store (keepDice sid index (keepDice sid index w)) roomId
           = Some (st\<lparr> mustKeepDie := (\<forall>kept\<in>set (keptDice st). \<not> kept) \<rparr>)"
proof -
  let ?i = "nat index"
  let ?s1 = "toggleKeep ?i st"
  let ?w1 = "keepDice sid index w"
  have i: "?i < length (keptDice st)" using assms by simp
  have w1: "?w1 = emit (GameStateUpdate roomId ?s1) (saveGameState roomId ?s1 w)"
    using assms by (intro keepDice_accepted) simp_all
  have sd: "socketData ?w1 sid = Some roomId"
    using assms(1) by (simp add: w1 socketData_emit socketData_saveGameState)
  have st1: "store ?w1 roomId = Some ?s1"
    by (simp add: w1 store_emit store_saveGameState)
  have "keepDice sid index ?w1
          = emit (GameStateUpdate roomId (toggleKeep ?i ?s1))
               (saveGameState roomId (toggleKeep ?i ?s1) ?w1)"
    using sd st1 assms by (intro keepDice_accepted) (simp_all add: toggleKeep_frame)
  then have "store (keepDice sid index ?w1) roomId = Some (toggleKeep ?i ?s1)"
    by (simp add: store_emit store_saveGameState)
  also have "toggleKeep ?i ?s1 = st\<lparr> mustKeepDie := \<not> list_ex (\<lambda>kept. kept) (keptDice st) \<rparr>"
    using i by (rule toggleKeep_twice)
  also have "(\<not> list_ex (\<lambda>kept. kept) (keptDice st)) = (\<forall>kept\<in>set (keptDice st). \<not> kept)"
    by (simp add: list_ex_iff)
  finally show ?thesis .
qed

theorem keepDice_twice_witness:
  "store (keepDice ''A'' 1 (keepDice ''A'' 1
        (one_room (two_players\<lparr> dice := [1, 2, 3, 4, 5, 6], rollCount := 1, mustKeepDie := True \<rparr>)))) ''r''
     = Some (two_players\<lparr> dice := [1, 2, 3, 4, 5, 6], rollCount := 1, mustKeepDie := True \<rparr>)"
  using keepDice_twice
          [where w = "one_room (two_players\<lparr> dice := [1, 2, 3, 4, 5, 6], rollCount := 1,
                                              mustKeepDie := True \<rparr>)"
             and sid = "''A''" and roomId = "''r''" and index = 1
             and st = "two_players\<lparr> dice := [1, 2, 3, 4, 5, 6], rollCount := 1, mustKeepDie := True \<rparr>"]
  by (simp add: one_room_def two_players_def createInitialGameState_def)

subsection \<open>C9: six dice and six kept flags\<close>

text \<open>
  C9 says that \<open>dice\<close> and \<open>keptDice\<close> have six entries after every handler. The
  \<open>keepDice\<close> handler checks its index with \<open>index < 0 || index >= 6\<close> and
  \<open>dice[index] === 0\<close>; the value \<open>"length"\<close> passes both (as a number it is \<open>NaN\<close>, and
  \<open>dice.length\<close> is \<open>6\<close>), and \<open>keptDice["length"] = !6\<close> cuts the array. After \<open>A\<close> has
  joined and rolled, \<open>keepDice("length")\<close> from \<open>A\<close> stores and broadcasts a state with six
  dice and no kept flag at all (the world is reachable, \<open>truncated_world_reachable\<close>).
  Every other step keeps both lengths at six
  (\<open>all_six_keepDice_payload\<close> for \<open>keepDice\<close> on any other value, and the lemmas next to
  it for the other handlers).
\<close>

theorem keepDice_length_truncates:
  "map_option (\<lambda>s. (dice s, keptDice s)) (store rolled_world ''r'')
     = Some ([4, 4, 4, 4, 4, 4], [False, False, False, False, False, False]) \<and>
   map_option (\<lambda>s. (dice s, keptDice s)) (store truncated_world ''r'')
     = Some ([4, 4, 4, 4, 4, 4], []) \<and>
   last (emitted truncated_world)
     = GameStateUpdate ''r''
         (alone_A\<lparr> dice := [4, 4, 4, 4, 4, 4], rollCount := 1, mustKeepDie := True,
                    keptDice := [] \<rparr>)"
proof -
  have t: "toggleKeep_payload LengthName
             (alone_A\<lparr> dice := [4, 4, 4, 4, 4, 4], rollCount := 1, mustKeepDie := True \<rparr>)
           = Some (alone_A\<lparr> dice := [4, 4, 4, 4, 4, 4], rollCount := 1, mustKeepDie := True,
                    keptDice := [] \<rparr>)"
    by (simp add: toggleKeep_payload_def kept_read_def kept_assign_def kept_reread_def
          some_is_overwritten_def set_length_def Let_def alone_A_def createInitialGameState_def)
  have k: "truncated_world
             = emit (GameStateUpdate ''r''
                 (alone_A\<lparr> dice := [4, 4, 4, 4, 4, 4], rollCount := 1, mustKeepDie := True,
                    keptDice := [] \<rparr>))
                 (saveGameState ''r''
                   (alone_A\<lparr> dice := [4, 4, 4, 4, 4, 4], rollCount := 1, mustKeepDie := True,
                    keptDice := [] \<rparr>) rolled_world)"
    unfolding truncated_world_def
    using rolled_world_store rolled_world_socket
    by (simp add: keepDice_payload_def getGameState_def ToNumber_def js_less_def
          js_greater_eq_def dice_is_zero_def t)
       (simp add: alone_A_def createInitialGameState_def)
  show ?thesis
    by (simp add: k rolled_world_store store_emit store_saveGameState emitted_emit)
       (simp add: alone_A_def createInitialGameState_def)
qed

subsection \<open>C1: endTurn when the round has not ended\<close>

text \<open>
  C1 says that \<open>endTurn\<close>, when the round has not ended, advances \<open>currentPlayer\<close>, resets
  the turn state, persists and broadcasts. The handler of the file with the Redis adapter
  stops after the round-end branch: after \<open>A\<close> and \<open>B\<close> have joined and \<open>A\<close> ends the turn,
  the round has not ended and the world is exactly what it was (nothing stored, nothing
  emitted, \<open>A\<close> still the current player). The handler of the other server file, on the
  same world, stores a state whose current player is \<open>B\<close>.
\<close>

theorem endTurn_does_not_advance:
  "map_option currentPlayer (store demo_world ''r'') = Some (Some ''A'') \<and>
   \<not> checkRoundEnd (endTurn_record ''A'' two_players) \<and>
   endTurn ''A'' demo_world = demo_world \<and>
   map_option currentPlayer (store (endTurn_earlier ''A'' demo_world) ''r'') = Some (Some ''B'')"
proof -
  have cur: "currentPlayer two_players = Some ''A''"
    by (simp add: two_players_def createInitialGameState_def)
  have 1: "endTurn ''A'' demo_world = demo_world"
    using demo_world_socket demo_world_store cur not_ended_A by (rule endTurn_not_ended)
  have "store (endTurn_earlier ''A'' demo_world) ''r''
          = Some (advanceTurn (endTurn_record ''A'' two_players))"
    by (simp add: endTurn_earlier_not_ended[OF demo_world_socket demo_world_store cur not_ended_A]
          store_emit store_saveGameState)
  moreover have "currentPlayer (advanceTurn (endTurn_record ''A'' two_players)) = Some ''B''"
    by (simp add: endTurn_record_A)
       (simp add: advanceTurn_def getNextPlayer_def two_players_def createInitialGameState_def
          or_empty_def truthy_def Let_def resetTurnState_def)
  ultimately have 2: "map_option currentPlayer (store (endTurn_earlier ''A'' demo_world) ''r'')
                        = Some (Some ''B'')" by simp
  from 1 2 demo_world_store cur not_ended_A show ?thesis by simp
qed

end
